theory Spec2Isabelle
  imports Main
begin

section \<open>Failure modes\<close>

text \<open>
  The container has one recoverable error, the \<^verbatim>\<open>std::out_of_range\<close> thrown by
  \<^verbatim>\<open>At\<close>. Everything else that can go wrong is a read or write outside the allocated
  block (or an iterator range that is no range), which C++ leaves undefined, and a failed
  \<^verbatim>\<open>assert\<close>. Each is a value of \<open>error\<close>, so that no operation of the model
  silently reads an unspecified list element.
\<close>

datatype error = OutOfRange | UndefinedBehaviour | AssertFailed

definition and_then :: "error + 'a \<Rightarrow> ('a \<Rightarrow> error + 'b) \<Rightarrow> error + 'b" where
  "and_then r f = (case r of Inl e \<Rightarrow> Inl e | Inr x \<Rightarrow> f x)"

section \<open>The element type\<close>

text \<open>
  \<^verbatim>\<open>Type\<close> is any default-constructible value type; \<^verbatim>\<open>Type()\<close> is the constant
  \<open>default\<close> of the class \<open>default\<close>. Elements are plain values: moving an element
  and copying it store the same value, and a moved-from element keeps its value (as it does
  for the scalar types). For \<^verbatim>\<open>int\<close>, \<^verbatim>\<open>int()\<close> is zero.
\<close>

instantiation int :: default
begin
definition default_int :: int where "default_int = 0"
instance ..
end

section \<open>The raw buffer owner\<close>

text \<open>
  Modelled from the spec: \<^verbatim>\<open>array_ptr.h\<close> (the class template \<^verbatim>\<open>ArrayPtr\<close>) is not
  among the sources. The specification says of it: it owns one contiguous block
  exclusively, \<^verbatim>\<open>ArrayPtr(n)\<close> allocates a block of \<open>n\<close> default-initialised elements
  (capacity 0 yields an empty block), \<^verbatim>\<open>Get()\<close> is the start of the block,
  \<^verbatim>\<open>operator[]\<close> is never bounds-checked, \<^verbatim>\<open>swap\<close> exchanges the blocks of two owners
  and no copy is exposed. A block is the list of its elements, held by value in its one
  owner; its length is the number of elements that were allocated, which the vector's
  \<^verbatim>\<open>capacity_\<close> field need not equal. Allocation is taken to succeed.
\<close>

definition ArrayPtr :: "nat \<Rightarrow> ('a::default) list" where
  "ArrayPtr n = replicate n default"

text \<open>\<^verbatim>\<open>items_[i]\<close> read and written: outside the block the behaviour is undefined.\<close>

definition subscript :: "'a list \<Rightarrow> nat \<Rightarrow> error + 'a" where
  "subscript blk i = (if i < length blk then Inr (blk ! i) else Inl UndefinedBehaviour)"

definition subscript_assign :: "'a list \<Rightarrow> nat \<Rightarrow> 'a \<Rightarrow> error + 'a list" where
  "subscript_assign blk i x =
     (if i < length blk then Inr (blk[i := x]) else Inl UndefinedBehaviour)"

section \<open>The algorithms of the standard library that the class calls\<close>

text \<open>
  Iterators are pointers into a block; a pointer is its offset from the start of the block.
  Forming \<^verbatim>\<open>&items_[i]\<close> reads nothing, so only the elements an algorithm touches must
  lie in the block. An empty range touches nothing. \<open>read_range blk first last\<close> is what
  an algorithm reads from \<open>[first, last)\<close>.

  \<open>std_move src first last dst d_first\<close> is \<^verbatim>\<open>std::move(first, last, d_first)\<close> with
  the source range in the block \<open>src\<close> and the destination in the block \<open>dst\<close>; the
  result is the destination block. When both are the same block (\<^verbatim>\<open>Erase\<close>) the
  destination starts before the source, which the forward loop of the algorithm allows.
  \<^verbatim>\<open>std::copy\<close> stores the same values.
\<close>

definition read_range :: "'a list \<Rightarrow> nat \<Rightarrow> nat \<Rightarrow> error + 'a list" where
  "read_range blk first_it last_it =
     (if first_it = last_it then Inr []
      else if first_it < last_it \<and> last_it \<le> length blk
      then Inr (take (last_it - first_it) (drop first_it blk))
      else Inl UndefinedBehaviour)"

definition std_move :: "'a list \<Rightarrow> nat \<Rightarrow> nat \<Rightarrow> 'a list \<Rightarrow> nat \<Rightarrow> error + 'a list" where
  "std_move src first_it last_it dst d_first =
     (if first_it = last_it then Inr dst
      else if first_it < last_it \<and> last_it \<le> length src \<and> d_first + (last_it - first_it) \<le> length dst
      then Inr (take d_first dst @ take (last_it - first_it) (drop first_it src)
                @ drop (d_first + (last_it - first_it)) dst)
      else Inl UndefinedBehaviour)"

definition std_copy :: "'a list \<Rightarrow> nat \<Rightarrow> nat \<Rightarrow> 'a list \<Rightarrow> nat \<Rightarrow> error + 'a list" where
  "std_copy src first_it last_it dst d_first = std_move src first_it last_it dst d_first"

text \<open>
  The constructors from a size and \<^verbatim>\<open>Resize\<close> call the three-argument
  \<^verbatim>\<open>std::move(first, last, d)\<close> with an element value (\<^verbatim>\<open>Type()\<close> or \<^verbatim>\<open>value\<close>) as
  \<open>d\<close>. The third argument of that algorithm is the destination iterator, taken by value:
  the algorithm reads the elements of \<open>[first, last)\<close> and assigns them through the
  destination; it stores nothing into \<open>[first, last)\<close>. (For an element type that is no
  output iterator, such as \<^verbatim>\<open>int\<close>, the call does not even compile.) So the block is
  returned as it was, provided the range that is read lies in it.
\<close>

definition std_move_away :: "'a list \<Rightarrow> nat \<Rightarrow> nat \<Rightarrow> error + 'a list" where
  "std_move_away blk first_it last_it =
     and_then (read_range blk first_it last_it) (\<lambda>moved. Inr blk)"

text \<open>
  \<^verbatim>\<open>std::move_backward(first, last, d_last)\<close> inside one block: the elements of
  \<open>[first, last)\<close> end up in the \<open>last - first\<close> slots before \<open>d_last\<close>, which must not
  lie in \<open>(first, last]\<close>.
\<close>

definition std_move_backward :: "'a list \<Rightarrow> nat \<Rightarrow> nat \<Rightarrow> nat \<Rightarrow> error + 'a list" where
  "std_move_backward blk first_it last_it d_last =
     (if first_it = last_it then Inr blk
      else if first_it < last_it \<and> last_it \<le> length blk \<and> (d_last \<le> first_it \<or> last_it < d_last)
              \<and> last_it - first_it \<le> d_last \<and> d_last \<le> length blk
      then Inr (take (d_last - (last_it - first_it)) blk @ take (last_it - first_it) (drop first_it blk)
                @ drop d_last blk)
      else Inl UndefinedBehaviour)"

text \<open>
  \<^verbatim>\<open>std::equal(first1, last1, first2)\<close>: the first argument is the first range, the
  second the elements from \<open>first2\<close> on to the end of its block.
\<close>

fun std_equal :: "'a list \<Rightarrow> 'a list \<Rightarrow> error + bool" where
  "std_equal [] ys = Inr True"
| "std_equal (x # xs) [] = Inl UndefinedBehaviour"
| "std_equal (x # xs) (y # ys) = (if x = y then std_equal xs ys else Inr False)"

fun std_lexicographical_compare :: "('a::ord) list \<Rightarrow> 'a list \<Rightarrow> bool" where
  "std_lexicographical_compare xs [] = False"
| "std_lexicographical_compare [] (y # ys) = True"
| "std_lexicographical_compare (x # xs) (y # ys) =
     (if x < y then True else if y < x then False else std_lexicographical_compare xs ys)"

section \<open>The class SimpleVector\<close>

text \<open>
  The three data members, named \<open>m_size\<close>, \<open>m_capacity\<close> and \<open>m_items\<close> for the
  source's \<^verbatim>\<open>size_\<close>, \<^verbatim>\<open>capacity_\<close> and \<^verbatim>\<open>items_\<close>. The sizes are \<^verbatim>\<open>size_t\<close>;
  they are natural numbers here, since a block of more than \<open>2 ^ 63\<close> elements cannot be
  allocated and so \<^verbatim>\<open>2 * capacity_\<close> cannot wrap for a capacity that was allocated.

  Names that Isabelle does not allow are changed: the constructors, all called
  \<^verbatim>\<open>SimpleVector\<close> in the source, carry a suffix that tells their argument;
  \<^verbatim>\<open>begin()\<close>, \<^verbatim>\<open>end()\<close> and \<^verbatim>\<open>swap\<close> are \<open>begin_it\<close>, \<open>end_it\<close> and
  \<open>swap_vec\<close>; the operators \<^verbatim>\<open>==\<close> and \<^verbatim>\<open><\<close> are \<open>op_equal\<close> and \<open>op_less\<close>;
  the free function \<^verbatim>\<open>Reserve(size_t)\<close> that builds the proxy object is
  \<open>Reserve_proxy\<close>.
\<close>

record 'a SimpleVector =
  m_size :: nat
  m_capacity :: nat
  m_items :: "'a list"

datatype ReserveProxyObj = ReserveProxyObj (capacity_to_reserve: nat)

definition Reserve_proxy :: "nat \<Rightarrow> ReserveProxyObj" where
  "Reserve_proxy n = ReserveProxyObj n"

subsection \<open>Constructors\<close>

definition SimpleVector_default :: "'a SimpleVector" where
  "SimpleVector_default = \<lparr>m_size = 0, m_capacity = 0, m_items = []\<rparr>"

definition SimpleVector_size :: "nat \<Rightarrow> error + ('a::default) SimpleVector" where
  "SimpleVector_size n =
     (let v = \<lparr>m_size = n, m_capacity = n, m_items = ArrayPtr n\<rparr> in
      and_then (std_move_away (m_items v) 0 (m_size v)) (\<lambda>blk.
      Inr (v\<lparr>m_items := blk\<rparr>)))"

text \<open>
  The constructor from a size and a value passes \<^verbatim>\<open>value\<close> to \<^verbatim>\<open>std::move\<close> as the
  destination, as the constructor from a size passes \<^verbatim>\<open>Type()\<close>: the value is stored
  nowhere in the block.
\<close>

definition SimpleVector_fill :: "nat \<Rightarrow> 'a \<Rightarrow> error + ('a::default) SimpleVector" where
  "SimpleVector_fill n val =
     (let v = \<lparr>m_size = n, m_capacity = n, m_items = ArrayPtr n\<rparr> in
      and_then (std_move_away (m_items v) 0 (m_size v)) (\<lambda>blk.
      Inr (v\<lparr>m_items := blk\<rparr>)))"

definition SimpleVector_init :: "'a list \<Rightarrow> error + ('a::default) SimpleVector" where
  "SimpleVector_init init =
     (let v = \<lparr>m_size = length init, m_capacity = length init,
               m_items = ArrayPtr (length init)\<rparr> in
      and_then (std_copy init 0 (length init) (m_items v) 0) (\<lambda>blk.
      Inr (v\<lparr>m_items := blk\<rparr>)))"

text \<open>The copy constructor allocates \<^verbatim>\<open>other.size_\<close> slots and records \<^verbatim>\<open>other.capacity_\<close>.\<close>

definition SimpleVector_copy :: "('a::default) SimpleVector \<Rightarrow> error + 'a SimpleVector" where
  "SimpleVector_copy other =
     (let v = \<lparr>m_size = m_size other, m_capacity = m_capacity other,
               m_items = ArrayPtr (m_size other)\<rparr> in
      and_then (std_copy (m_items other) 0 (m_size other) (m_items v) 0) (\<lambda>blk.
      Inr (v\<lparr>m_items := blk\<rparr>)))"

text \<open>The move constructor returns the new vector and what is left of \<open>other\<close>.\<close>

definition SimpleVector_move :: "'a SimpleVector \<Rightarrow> 'a SimpleVector \<times> 'a SimpleVector" where
  "SimpleVector_move other =
     (\<lparr>m_size = m_size other, m_capacity = m_capacity other, m_items = m_items other\<rparr>,
      \<lparr>m_size = 0, m_capacity = 0, m_items = []\<rparr>)"

text \<open>
  The members are initialised in the order of their declaration, so \<^verbatim>\<open>items_(size_)\<close>
  allocates \<^verbatim>\<open>size_ = 0\<close> slots.
\<close>

definition SimpleVector_reserve :: "ReserveProxyObj \<Rightarrow> ('a::default) SimpleVector" where
  "SimpleVector_reserve reserve_proxy_obj =
     (let sz = 0 in
      \<lparr>m_size = sz, m_capacity = capacity_to_reserve reserve_proxy_obj,
       m_items = ArrayPtr sz\<rparr>)"

subsection \<open>Observers\<close>

definition GetSize :: "'a SimpleVector \<Rightarrow> nat" where
  "GetSize v = m_size v"

definition GetCapacity :: "'a SimpleVector \<Rightarrow> nat" where
  "GetCapacity v = m_capacity v"

definition IsEmpty :: "'a SimpleVector \<Rightarrow> bool" where
  "IsEmpty v = (m_size v = 0)"

definition At :: "'a SimpleVector \<Rightarrow> nat \<Rightarrow> error + 'a" where
  "At v index =
     (if index \<ge> m_size v then Inl OutOfRange else subscript (m_items v) index)"

text \<open>The offsets of \<^verbatim>\<open>begin()\<close> and \<^verbatim>\<open>end()\<close>, and the elements between them.\<close>

definition begin_it :: "'a SimpleVector \<Rightarrow> nat" where
  "begin_it v = 0"

definition end_it :: "'a SimpleVector \<Rightarrow> nat" where
  "end_it v = m_size v"

definition elements :: "'a SimpleVector \<Rightarrow> 'a list" where
  "elements v = take (end_it v - begin_it v) (drop (begin_it v) (m_items v))"

subsection \<open>Modifiers\<close>

definition Clear :: "'a SimpleVector \<Rightarrow> 'a SimpleVector" where
  "Clear v = v\<lparr>m_size := 0\<rparr>"

definition swap_vec :: "'a SimpleVector \<Rightarrow> 'a SimpleVector \<Rightarrow> 'a SimpleVector \<times> 'a SimpleVector" where
  "swap_vec this other =
     (this\<lparr>m_size := m_size other, m_capacity := m_capacity other, m_items := m_items other\<rparr>,
      other\<lparr>m_size := m_size this, m_capacity := m_capacity this, m_items := m_items this\<rparr>)"

definition Reserve :: "nat \<Rightarrow> ('a::default) SimpleVector \<Rightarrow> error + 'a SimpleVector" where
  "Reserve new_capacity v =
     (if new_capacity \<ge> m_capacity v then
        (let new_items = ArrayPtr new_capacity in
         and_then (std_move (m_items v) (begin_it v) (end_it v) new_items 0) (\<lambda>new_items.
         Inr (v\<lparr>m_items := new_items, m_capacity := new_capacity\<rparr>)))
      else Inr v)"

definition Resize :: "nat \<Rightarrow> ('a::default) SimpleVector \<Rightarrow> error + 'a SimpleVector" where
  "Resize new_size v =
     (if new_size < m_size v then Inr (v\<lparr>m_size := new_size\<rparr>)
      else if new_size \<le> m_capacity v then
        and_then (std_move_away (m_items v) (end_it v) (m_capacity v)) (\<lambda>blk.
        Inr (v\<lparr>m_items := blk, m_size := new_size\<rparr>))
      else
        and_then (Reserve (max new_size (2 * m_capacity v)) v) (\<lambda>v1.
        and_then (std_move_away (m_items v1) (m_size v1) new_size) (\<lambda>blk.
        Inr (v1\<lparr>m_items := blk, m_size := new_size\<rparr>))))"

text \<open>
  \<^verbatim>\<open>PushBack\<close> and \<^verbatim>\<open>Insert\<close> take their argument by reference (\<^verbatim>\<open>const Type&\<close> or
  \<^verbatim>\<open>Type&&\<close>) and read it where the assignment \<^verbatim>\<open>items_[...] = item\<close> stands. The
  object referred to is either outside the block of the vector, and then holds its value
  \<open>x\<close> throughout the call (\<open>Value x\<close>: a temporary, a variable, an element of another
  vector), or it is the element \<^verbatim>\<open>items_[j]\<close> of the vector itself (\<open>Element j\<close>: what
  \<^verbatim>\<open>v[j]\<close> and \<^verbatim>\<open>v.At(j)\<close> return). \<open>read_arg a blk\<close> reads the argument: \<open>blk\<close> is the
  block that an \<open>Element\<close> lies in, as it is at the moment of the read, or \<open>None\<close> when that
  block has been released, in which case the read is undefined.
\<close>

datatype 'a arg = Value 'a | Element nat

definition read_arg :: "'a arg \<Rightarrow> 'a list option \<Rightarrow> error + 'a" where
  "read_arg a blk =
     (case a of
        Value x \<Rightarrow> Inr x
      | Element j \<Rightarrow> (case blk of None \<Rightarrow> Inl UndefinedBehaviour | Some b \<Rightarrow> subscript b j))"

text \<open>
  \<^verbatim>\<open>Reserve\<close> allocates \<^verbatim>\<open>new_items\<close>, swaps it with \<^verbatim>\<open>items_\<close> and releases the old
  block at the end of its scope exactly when it takes its branch.
\<close>

definition Reserve_reallocates :: "nat \<Rightarrow> 'a SimpleVector \<Rightarrow> bool" where
  "Reserve_reallocates new_capacity v = (new_capacity \<ge> m_capacity v)"

definition PushBack :: "'a arg \<Rightarrow> ('a::default) SimpleVector \<Rightarrow> error + 'a SimpleVector" where
  "PushBack item v =
     and_then
       (if m_size v < m_capacity v then
          and_then (read_arg item (Some (m_items v))) (\<lambda>x.
          and_then (subscript_assign (m_items v) (m_size v) x) (\<lambda>blk.
          Inr (v\<lparr>m_items := blk\<rparr>)))
        else
          and_then (Reserve (max 1 (2 * m_capacity v)) v) (\<lambda>v1.
          and_then (read_arg item
                      (if Reserve_reallocates (max 1 (2 * m_capacity v)) v then None
                       else Some (m_items v1))) (\<lambda>x.
          and_then (subscript_assign (m_items v1) (m_size v1) x) (\<lambda>blk.
          Inr (v1\<lparr>m_items := blk\<rparr>)))))
       (\<lambda>v2. Inr (v2\<lparr>m_size := m_size v2 + 1\<rparr>))"

text \<open>
  A position is the offset \<^verbatim>\<open>std::distance(cbegin(), pos)\<close>. A position after
  \<^verbatim>\<open>end()\<close> makes \<open>[pos, end())\<close> no range.
\<close>

definition VectorMoveRigth :: "nat \<Rightarrow> ('a::default) SimpleVector \<Rightarrow> error + nat \<times> 'a SimpleVector" where
  "VectorMoveRigth pos v =
     (let number_pos = pos - begin_it v in
      if end_it v < number_pos then Inl UndefinedBehaviour
      else
        and_then
          (if m_size v < m_capacity v then
             and_then (std_move_backward (m_items v) number_pos (end_it v) (m_size v + 1)) (\<lambda>blk.
             Inr (v\<lparr>m_items := blk\<rparr>))
           else if m_capacity v = 0 then Reserve 1 v
           else
             and_then (Reserve (2 * m_capacity v) v) (\<lambda>v1.
             and_then (std_move_backward (m_items v1) number_pos (end_it v1) (m_size v1 + 1)) (\<lambda>blk.
             Inr (v1\<lparr>m_items := blk\<rparr>))))
          (\<lambda>v2. Inr (number_pos, v2\<lparr>m_size := m_size v2 + 1\<rparr>)))"

text \<open>
  Whether \<^verbatim>\<open>VectorMoveRigth\<close> has released the block that the vector had at the call:
  it has when it called \<^verbatim>\<open>Reserve\<close> and that reallocated.
\<close>

definition VectorMoveRigth_reallocates :: "'a SimpleVector \<Rightarrow> bool" where
  "VectorMoveRigth_reallocates v =
     (if m_size v < m_capacity v then False
      else if m_capacity v = 0 then Reserve_reallocates 1 v
      else Reserve_reallocates (2 * m_capacity v) v)"

text \<open>
  \<^verbatim>\<open>Insert\<close> reads \<^verbatim>\<open>value\<close> after \<^verbatim>\<open>VectorMoveRigth\<close> has shifted the elements: an
  element of the vector itself is read from the shifted block.
\<close>

definition Insert :: "nat \<Rightarrow> 'a arg \<Rightarrow> ('a::default) SimpleVector \<Rightarrow> error + nat \<times> 'a SimpleVector" where
  "Insert pos val v =
     and_then (VectorMoveRigth pos v) (\<lambda>(number_pos, v1).
     and_then (read_arg val
                 (if VectorMoveRigth_reallocates v then None else Some (m_items v1))) (\<lambda>x.
     and_then (subscript_assign (m_items v1) number_pos x) (\<lambda>blk.
     Inr (number_pos, v1\<lparr>m_items := blk\<rparr>))))"

text \<open>
  The assertions of \<^verbatim>\<open>PopBack\<close> and \<^verbatim>\<open>Erase\<close> are taken as compiled in. (Without
  them \<^verbatim>\<open>PopBack\<close> leaves an empty vector as it is, and \<^verbatim>\<open>Erase(end())\<close> moves the
  range \<open>[end() + 1, end())\<close>, which is no range.)
\<close>

definition PopBack :: "'a SimpleVector \<Rightarrow> error + 'a SimpleVector" where
  "PopBack v =
     (if IsEmpty v then Inl AssertFailed
      else Inr (v\<lparr>m_size := m_size v - 1\<rparr>))"

definition Erase :: "nat \<Rightarrow> 'a SimpleVector \<Rightarrow> error + nat \<times> 'a SimpleVector" where
  "Erase pos v =
     (if pos = end_it v then Inl AssertFailed
      else if end_it v < pos then Inl UndefinedBehaviour
      else
        (let it = pos - begin_it v in
         and_then (std_move (m_items v) (it + 1) (end_it v) (m_items v) it) (\<lambda>blk.
         Inr (it, v\<lparr>m_items := blk, m_size := m_size v - 1\<rparr>))))"

subsection \<open>Comparison\<close>

definition op_equal :: "'a SimpleVector \<Rightarrow> 'a SimpleVector \<Rightarrow> error + bool" where
  "op_equal lhs rhs =
     (if GetSize lhs = GetSize rhs then
        and_then (read_range (m_items lhs) (begin_it lhs) (end_it lhs)) (\<lambda>xs.
        std_equal xs (drop (begin_it rhs) (m_items rhs)))
      else Inr False)"

definition op_less :: "('a::ord) SimpleVector \<Rightarrow> 'a SimpleVector \<Rightarrow> error + bool" where
  "op_less lhs rhs =
     and_then (read_range (m_items lhs) (begin_it lhs) (end_it lhs)) (\<lambda>xs.
     and_then (read_range (m_items rhs) (begin_it rhs) (end_it rhs)) (\<lambda>ys.
     Inr (std_lexicographical_compare xs ys)))"

subsection \<open>Assignment\<close>

text \<open>
  Both assignment operators compare the addresses of the two objects, so they are modelled
  on a store of vectors by address. The temporary \<^verbatim>\<open>tmp\<close> is destroyed at the end of
  the block and leaves no trace in the store.
\<close>

type_synonym 'a store = "nat \<Rightarrow> 'a SimpleVector option"

definition copy_assign :: "nat \<Rightarrow> nat \<Rightarrow> ('a::default) store \<Rightarrow> error + 'a store" where
  "copy_assign this rhs s =
     (if this \<noteq> rhs then
        (case (s this, s rhs) of
           (Some t, Some r) \<Rightarrow>
             and_then (SimpleVector_copy r) (\<lambda>tmp.
             case swap_vec t tmp of (t', tmp') \<Rightarrow> Inr (s(this \<mapsto> t')))
         | _ \<Rightarrow> Inl UndefinedBehaviour)
      else Inr s)"

definition move_assign :: "nat \<Rightarrow> nat \<Rightarrow> 'a store \<Rightarrow> error + 'a store" where
  "move_assign this rhs s =
     (if this \<noteq> rhs then
        (case (s this, s rhs) of
           (Some t, Some r) \<Rightarrow>
             (case SimpleVector_move r of (tmp, r') \<Rightarrow>
              case swap_vec t tmp of (t', tmp') \<Rightarrow> Inr (s(rhs \<mapsto> r', this \<mapsto> t')))
         | _ \<Rightarrow> Inl UndefinedBehaviour)
      else Inr s)"

section \<open>Sequences of operations and invariants\<close>

text \<open>
  \<open>PushBack_all [x1, ..., xk]\<close> is \<open>k\<close> consecutive calls of \<^verbatim>\<open>PushBack\<close> with values
  from outside the vector.
\<close>

fun PushBack_all :: "'a list \<Rightarrow> ('a::default) SimpleVector \<Rightarrow> error + 'a SimpleVector" where
  "PushBack_all [] v = Inr v"
| "PushBack_all (x # xs) v = and_then (PushBack (Value x) v) (PushBack_all xs)"

text \<open>The capacities of the growth policy, in the specification's words: 0, 1, 2, 4, 8, ...\<close>

definition doubling_chain :: "nat set" where
  "doubling_chain = insert 0 (range (\<lambda>j. 2 ^ j))"

text \<open>
  The invariant in the specification's words: \<open>0 \<le> size \<le> capacity\<close>, the slots
  \<open>[size, capacity)\<close> exist and hold default-initialised values.
\<close>

definition spec_invariant :: "('a::default) SimpleVector \<Rightarrow> bool" where
  "spec_invariant v =
     (m_size v \<le> m_capacity v \<and> m_capacity v \<le> length (m_items v)
      \<and> drop (m_size v) (take (m_capacity v) (m_items v))
          = replicate (m_capacity v - m_size v) default)"

text \<open>
  The invariant that the operations keep: \<open>size \<le> capacity\<close>, the block has exactly
  \<open>capacity\<close> slots, and every slot holds the default value or a value of \<open>A\<close>.
\<close>

definition valid_state :: "'a set \<Rightarrow> ('a::default) SimpleVector \<Rightarrow> bool" where
  "valid_state A v =
     (m_size v \<le> m_capacity v \<and> length (m_items v) = m_capacity v
      \<and> set (m_items v) \<subseteq> insert default A)"

text \<open>
  The values that a call supplies: an argument from outside the vector supplies its value,
  which is taken from the set \<open>A\<close>; an element of the vector itself supplies nothing new.
\<close>

definition supplied :: "'a set \<Rightarrow> 'a arg \<Rightarrow> bool" where
  "supplied A a = (case a of Value x \<Rightarrow> x \<in> A | Element j \<Rightarrow> True)"

text \<open>
  The vectors that a sequence of public operations reaches when every call has defined
  behaviour and no assertion fails, with the values of \<open>A\<close> as arguments: from the default
  constructor, the constructors from a size, from a size and a value and from an
  initializer list, by move construction, move assignment, \<^verbatim>\<open>swap\<close>, \<^verbatim>\<open>Clear\<close>,
  \<^verbatim>\<open>Resize\<close>, \<^verbatim>\<open>PushBack\<close>, \<^verbatim>\<open>Insert\<close>, \<^verbatim>\<open>PopBack\<close>, \<^verbatim>\<open>Erase\<close> and \<^verbatim>\<open>Reserve\<close>, and,
  when \<open>copies\<close> is true, also by copy construction, copy assignment and the constructor
  from a \<^verbatim>\<open>ReserveProxyObj\<close>: these three record a capacity that they do not allocate.
  A call whose behaviour is undefined, or whose assertion fails, reaches nothing: what the
  program does after it is not described.
\<close>

inductive reachable :: "bool \<Rightarrow> 'a set \<Rightarrow> ('a::default) SimpleVector \<Rightarrow> bool"
  for copies :: bool and A :: "'a set" where
  reach_default: "reachable copies A SimpleVector_default"
| reach_size: "SimpleVector_size n = Inr v \<Longrightarrow> reachable copies A v"
| reach_fill: "x \<in> A \<Longrightarrow> SimpleVector_fill n x = Inr v \<Longrightarrow> reachable copies A v"
| reach_init: "set xs \<subseteq> A \<Longrightarrow> SimpleVector_init xs = Inr v \<Longrightarrow> reachable copies A v"
| reach_copy:
    "copies \<Longrightarrow> reachable copies A other \<Longrightarrow> SimpleVector_copy other = Inr v \<Longrightarrow>
     reachable copies A v"
| reach_reserve: "copies \<Longrightarrow> reachable copies A (SimpleVector_reserve reserve_proxy_obj)"
| reach_copy_assign:
    "copies \<Longrightarrow> reachable copies A t \<Longrightarrow> reachable copies A r \<Longrightarrow>
     copy_assign this rhs (Map.empty(this \<mapsto> t, rhs \<mapsto> r)) = Inr s \<Longrightarrow> s a = Some v \<Longrightarrow>
     reachable copies A v"
| reach_move_new:
    "reachable copies A other \<Longrightarrow> reachable copies A (fst (SimpleVector_move other))"
| reach_move_old:
    "reachable copies A other \<Longrightarrow> reachable copies A (snd (SimpleVector_move other))"
| reach_move_assign:
    "reachable copies A t \<Longrightarrow> reachable copies A r \<Longrightarrow>
     move_assign this rhs (Map.empty(this \<mapsto> t, rhs \<mapsto> r)) = Inr s \<Longrightarrow> s a = Some v \<Longrightarrow>
     reachable copies A v"
| reach_swap_this:
    "reachable copies A a \<Longrightarrow> reachable copies A b \<Longrightarrow> reachable copies A (fst (swap_vec a b))"
| reach_swap_other:
    "reachable copies A a \<Longrightarrow> reachable copies A b \<Longrightarrow> reachable copies A (snd (swap_vec a b))"
| reach_Clear: "reachable copies A v \<Longrightarrow> reachable copies A (Clear v)"
| reach_Resize: "reachable copies A v \<Longrightarrow> Resize n v = Inr v' \<Longrightarrow> reachable copies A v'"
| reach_PushBack:
    "reachable copies A v \<Longrightarrow> supplied A item \<Longrightarrow> PushBack item v = Inr v' \<Longrightarrow>
     reachable copies A v'"
| reach_Insert:
    "reachable copies A v \<Longrightarrow> supplied A val \<Longrightarrow> Insert pos val v = Inr (it, v') \<Longrightarrow>
     reachable copies A v'"
| reach_PopBack: "reachable copies A v \<Longrightarrow> PopBack v = Inr v' \<Longrightarrow> reachable copies A v'"
| reach_Erase: "reachable copies A v \<Longrightarrow> Erase pos v = Inr (it, v') \<Longrightarrow> reachable copies A v'"
| reach_Reserve: "reachable copies A v \<Longrightarrow> Reserve n v = Inr v' \<Longrightarrow> reachable copies A v'"

section \<open>Basic facts\<close>

lemma and_then_Inr [simp]: "and_then (Inr x) f = f x"
  by (simp add: and_then_def)

lemma and_then_Inl [simp]: "and_then (Inl e) f = Inl e"
  by (simp add: and_then_def)

lemma read_arg_Value [simp]: "read_arg (Value x) blk = Inr x"
  by (simp add: read_arg_def)

lemma read_arg_Element_released [simp]: "read_arg (Element j) None = Inl UndefinedBehaviour"
  by (simp add: read_arg_def)

lemma read_arg_Element [simp]: "read_arg (Element j) (Some b) = subscript b j"
  by (simp add: read_arg_def)

section \<open>Bounds-checked access\<close>

text \<open>
  Claim C7. For every vector whose \<open>size\<close> elements lie in its block (as they do in
  every vector that public operations with defined behaviour reach) and every index \<open>i\<close>,
  \<^verbatim>\<open>At(i)\<close> signals \<open>OutOfRange\<close> exactly when \<open>i \<ge> size\<close>, and otherwise returns the
  element at index \<open>i\<close>; \<^verbatim>\<open>At\<close> computes a result from the vector and has no other
  effect. In particular \<^verbatim>\<open>At(size())\<close> signals \<open>OutOfRange\<close>, and \<^verbatim>\<open>At(size() - 1)\<close>
  succeeds when the vector is not empty.
\<close>

theorem At_out_of_range_iff:
  assumes "m_size v \<le> length (m_items v)"
  shows "(At v i = Inl OutOfRange \<longleftrightarrow> GetSize v \<le> i)
       \<and> (i < GetSize v \<longrightarrow> At v i = Inr (m_items v ! i))
       \<and> At v (GetSize v) = Inl OutOfRange
       \<and> (0 < GetSize v \<longrightarrow> At v (GetSize v - 1) = Inr (m_items v ! (GetSize v - 1)))"
  using assms by (auto simp: At_def GetSize_def subscript_def)

theorem At_out_of_range_iff_witness:
  "m_size \<lparr>m_size = 2, m_capacity = 3, m_items = [1, 2, 3::int]\<rparr>
     \<le> length (m_items \<lparr>m_size = 2, m_capacity = 3, m_items = [1, 2, 3::int]\<rparr>)
   \<and> At \<lparr>m_size = 2, m_capacity = 3, m_items = [1, 2, 3::int]\<rparr> 1 = Inr 2
   \<and> At \<lparr>m_size = 2, m_capacity = 3, m_items = [1, 2, 3::int]\<rparr> 2 = Inl OutOfRange"
  using At_out_of_range_iff [of "\<lparr>m_size = 2, m_capacity = 3, m_items = [1, 2, 3::int]\<rparr>" 1]
  by (simp add: GetSize_def)

section \<open>Self-assignment\<close>

text \<open>
  Claim C10. Copy-assigning a vector to itself and move-assigning it to itself leave it
  (its size, its capacity and its elements), and the rest of the store, unchanged: both
  operators do nothing when the two addresses are equal.
\<close>

theorem self_assignment_unchanged:
  "copy_assign a a s = Inr s \<and> move_assign a a s = Inr s"
  by (simp add: copy_assign_def move_assign_def)

section \<open>Growth: Reserve and PushBack\<close>

lemma Reserve_grows:
  assumes "m_capacity v \<le> n" and "m_size v \<le> length (m_items v)" and "m_size v \<le> n"
  shows "Reserve n v = Inr (v\<lparr>m_items := take (m_size v) (m_items v) @ replicate (n - m_size v) default,
                                 m_capacity := n\<rparr>)"
  using assms by (simp add: Reserve_def std_move_def ArrayPtr_def begin_it_def end_it_def Let_def)

lemma Reserve_keeps:
  "n < m_capacity v \<Longrightarrow> Reserve n v = Inr v"
  by (simp add: Reserve_def)

lemma update_first_spare:
  "k \<le> length xs \<Longrightarrow> k < m \<Longrightarrow>
   (take k xs @ replicate (m - k) d)[k := x] = take k xs @ x # replicate (m - Suc k) d"
  by (cases "m - k") (auto simp: list_update_append)

lemma PushBack_spare:
  assumes "m_size v < m_capacity v" and "m_size v < length (m_items v)"
  shows "PushBack (Value x) v = Inr (v\<lparr>m_items := (m_items v)[m_size v := x], m_size := m_size v + 1\<rparr>)"
  using assms by (simp add: PushBack_def subscript_assign_def)

lemma PushBack_full:
  assumes "m_size v = m_capacity v" and "m_capacity v \<le> length (m_items v)"
  shows "PushBack (Value x) v =
           Inr (v\<lparr>m_size := m_size v + 1, m_capacity := max 1 (2 * m_capacity v),
                m_items := take (m_size v) (m_items v) @ x
                          # replicate (max 1 (2 * m_capacity v) - Suc (m_size v)) default\<rparr>)"
proof -
  define m where "m = max 1 (2 * m_capacity v)"
  have m: "m_capacity v \<le> m" "m_size v < m" using assms by (auto simp: m_def)
  have r: "Reserve m v = Inr (v\<lparr>m_items := take (m_size v) (m_items v) @ replicate (m - m_size v) default,
                                 m_capacity := m\<rparr>)"
    using assms m by (intro Reserve_grows) auto
  have "PushBack (Value x) v =
      and_then (and_then (Reserve m v) (\<lambda>v1.
          and_then (subscript_assign (m_items v1) (m_size v1) x) (\<lambda>blk.
          Inr (v1\<lparr>m_items := blk\<rparr>))))
       (\<lambda>v2. Inr (v2\<lparr>m_size := m_size v2 + 1\<rparr>))"
    using assms by (simp add: PushBack_def m_def)
  also have "\<dots> = Inr (v\<lparr>m_size := m_size v + 1, m_capacity := m,
                m_items := take (m_size v) (m_items v) @ x # replicate (m - Suc (m_size v)) default\<rparr>)"
    using assms m by (simp add: r subscript_assign_def update_first_spare)
  finally show ?thesis by (simp add: m_def)
qed

lemma PushBack_effect:
  assumes "m_size v \<le> m_capacity v" and "m_capacity v \<le> length (m_items v)"
  shows "\<exists>v'. PushBack (Value x) v = Inr v'
      \<and> m_size v' = m_size v + 1
      \<and> m_capacity v' = (if m_size v < m_capacity v then m_capacity v else max 1 (2 * m_capacity v))
      \<and> m_capacity v' \<le> length (m_items v')
      \<and> (length (m_items v) = m_capacity v \<longrightarrow> length (m_items v') = m_capacity v')
      \<and> take (m_size v) (m_items v') = take (m_size v) (m_items v)
      \<and> m_items v' ! m_size v = x"
proof (cases "m_size v < m_capacity v")
  case True
  with assms have "m_size v < length (m_items v)" by simp
  with True assms show ?thesis
    by (simp add: PushBack_spare)
next
  case False
  with assms have eq: "m_size v = m_capacity v" by simp
  have "m_capacity v < max 1 (2 * m_capacity v)" by auto
  with assms eq show ?thesis
    by (simp add: PushBack_full nth_append del: max.absorb1 max.absorb2 max.absorb3 max.absorb4)
qed

lemma doubling_chain_double:
  assumes "c \<in> doubling_chain"
  shows "max 1 (2 * c) \<in> doubling_chain"
proof (cases "c = 0")
  case True
  have "(1::nat) = 2 ^ 0" by simp
  then have "(1::nat) \<in> range (\<lambda>j. 2 ^ j)" by (rule range_eqI)
  with True show ?thesis by (simp add: doubling_chain_def)
next
  case False
  with assms obtain j where j: "c = 2 ^ j" by (auto simp: doubling_chain_def)
  then have "max 1 (2 * c) = 2 ^ Suc j" by simp
  then have "max 1 (2 * c) \<in> range (\<lambda>j. 2 ^ j)" by (rule range_eqI)
  then show ?thesis by (simp add: doubling_chain_def)
qed

lemma doubling_chain_least_above:
  assumes "c \<in> doubling_chain" and "c' \<in> doubling_chain" and "c < c'"
  shows "max 1 (2 * c) \<le> c'"
proof (cases "c = 0")
  case True
  with assms show ?thesis by simp
next
  case False
  with assms obtain j where j: "c = 2 ^ j" by (auto simp: doubling_chain_def)
  from assms obtain i where i: "c' = 2 ^ i" by (auto simp: doubling_chain_def)
  from assms j i have "j < i" by simp
  then have "Suc j \<le> i" by simp
  then have "(2::nat) ^ Suc j \<le> 2 ^ i" by (rule power_increasing) simp
  moreover have "max 1 (2 * c) = 2 ^ Suc j" using j by simp
  ultimately show ?thesis using i by simp
qed

lemma PushBack_all_effect:
  assumes "m_size v \<le> m_capacity v" and "m_capacity v \<le> length (m_items v)"
    and "m_capacity v \<in> doubling_chain"
    and "\<forall>c\<in>doubling_chain. m_size v \<le> c \<longrightarrow> m_capacity v \<le> c"
  shows "\<exists>w. PushBack_all xs v = Inr w
      \<and> m_size w = m_size v + length xs
      \<and> elements w = elements v @ xs
      \<and> m_size w \<le> m_capacity w
      \<and> m_capacity w \<in> doubling_chain
      \<and> (\<forall>c\<in>doubling_chain. m_size w \<le> c \<longrightarrow> m_capacity w \<le> c)"
  using assms
proof (induction xs arbitrary: v)
  case Nil
  then show ?case by simp
next
  case (Cons x xs)
  from PushBack_effect [OF Cons.prems(1,2), of x] obtain v' where
    v': "PushBack (Value x) v = Inr v'" "m_size v' = m_size v + 1"
        "m_capacity v' = (if m_size v < m_capacity v then m_capacity v else max 1 (2 * m_capacity v))"
        "m_capacity v' \<le> length (m_items v')"
        "take (m_size v) (m_items v') = take (m_size v) (m_items v)"
        "m_items v' ! m_size v = x"
    by blast
  have sz: "m_size v' \<le> m_capacity v'"
    using v'(2,3) Cons.prems(1) by (auto split: if_splits)
  have el: "elements v' = elements v @ [x]"
  proof -
    have "m_size v < length (m_items v')" using sz v'(2,4) by simp
    then have "take (Suc (m_size v)) (m_items v') = take (m_size v) (m_items v') @ [m_items v' ! m_size v]"
      by (rule take_Suc_conv_app_nth)
    then show ?thesis by (simp add: elements_def begin_it_def end_it_def v')
  qed
  have ch: "m_capacity v' \<in> doubling_chain"
    using v'(3) Cons.prems(3) doubling_chain_double [of "m_capacity v"] by (simp split: if_splits)
  have least: "\<forall>c\<in>doubling_chain. m_size v' \<le> c \<longrightarrow> m_capacity v' \<le> c"
  proof (intro ballI impI)
    fix c assume c: "c \<in> doubling_chain" "m_size v' \<le> c"
    show "m_capacity v' \<le> c"
    proof (cases "m_size v < m_capacity v")
      case True
      with Cons.prems(4) c v'(2,3) show ?thesis by simp
    next
      case False
      with Cons.prems(1) have "m_size v = m_capacity v" by simp
      with c v'(2) have "m_capacity v < c" by simp
      from doubling_chain_least_above [OF Cons.prems(3) c(1) this] False v'(3)
      show ?thesis by simp
    qed
  qed
  from Cons.IH [OF sz v'(4) ch least] obtain w where
    w: "PushBack_all xs v' = Inr w" "m_size w = m_size v' + length xs"
       "elements w = elements v' @ xs" "m_size w \<le> m_capacity w"
       "m_capacity w \<in> doubling_chain"
       "\<forall>c\<in>doubling_chain. m_size w \<le> c \<longrightarrow> m_capacity w \<le> c"
    by blast
  show ?case
    using w v'(1,2) el by simp
qed

text \<open>
  What \<^verbatim>\<open>PushBack\<close> does when the slots \<open>[0, capacity)\<close> exist in the block and the
  argument lies outside the vector: the size grows by 1, the new last element is the
  argument, the elements stored before read as before, and the capacity is unchanged when
  \<open>size < capacity\<close> held and \<open>max(1, 2 \<times> capacity)\<close> otherwise; from capacity 0, after
  the \<open>k\<close> calls \<open>PushBack_all xs\<close> the capacity is the smallest value of the chain
  0, 1, 2, 4, 8, ... that is at least \<open>k\<close>.
\<close>

lemma PushBack_appends_value:
  assumes "m_size v \<le> m_capacity v" and "m_capacity v \<le> length (m_items v)"
  shows "(\<exists>v'. PushBack (Value x) v = Inr v'
          \<and> GetSize v' = GetSize v + 1
          \<and> At v' (GetSize v' - 1) = Inr x
          \<and> (\<forall>i<GetSize v. At v' i = At v i)
          \<and> elements v' = elements v @ [x]
          \<and> GetCapacity v' =
              (if GetSize v < GetCapacity v then GetCapacity v else max 1 (2 * GetCapacity v)))
       \<and> (GetCapacity v = 0 \<longrightarrow>
           (\<exists>w. PushBack_all xs v = Inr w
              \<and> elements w = xs
              \<and> GetCapacity w \<in> doubling_chain
              \<and> length xs \<le> GetCapacity w
              \<and> (\<forall>c\<in>doubling_chain. length xs \<le> c \<longrightarrow> GetCapacity w \<le> c)))"
proof (intro conjI impI)
  from PushBack_effect [OF assms, of x] obtain v' where
    v': "PushBack (Value x) v = Inr v'" "m_size v' = m_size v + 1"
        "m_capacity v' = (if m_size v < m_capacity v then m_capacity v else max 1 (2 * m_capacity v))"
        "m_capacity v' \<le> length (m_items v')"
        "take (m_size v) (m_items v') = take (m_size v) (m_items v)"
        "m_items v' ! m_size v = x"
    by blast
  have sz: "m_size v' \<le> m_capacity v'"
    using v'(2,3) assms(1) by (auto split: if_splits)
  have lt: "m_size v < length (m_items v')" using sz v'(2,4) by simp
  have old: "m_items v' ! i = m_items v ! i" if "i < m_size v" for i
  proof -
    have "take (m_size v) (m_items v') ! i = take (m_size v) (m_items v) ! i"
      by (simp only: v'(5))
    with that show ?thesis by simp
  qed
  have el: "elements v' = elements v @ [x]"
  proof -
    from lt have "take (Suc (m_size v)) (m_items v') = take (m_size v) (m_items v') @ [m_items v' ! m_size v]"
      by (rule take_Suc_conv_app_nth)
    then show ?thesis by (simp add: elements_def begin_it_def end_it_def v')
  qed
  have "At v' (GetSize v' - 1) = Inr x"
    using lt v'(2,6) by (simp add: At_def GetSize_def subscript_def)
  moreover have "\<forall>i<GetSize v. At v' i = At v i"
    using lt v'(2) assms old by (simp add: At_def GetSize_def subscript_def)
  ultimately show "\<exists>v'. PushBack (Value x) v = Inr v'
          \<and> GetSize v' = GetSize v + 1
          \<and> At v' (GetSize v' - 1) = Inr x
          \<and> (\<forall>i<GetSize v. At v' i = At v i)
          \<and> elements v' = elements v @ [x]
          \<and> GetCapacity v' =
              (if GetSize v < GetCapacity v then GetCapacity v else max 1 (2 * GetCapacity v))"
    using v'(1,2,3) el by (simp add: GetSize_def GetCapacity_def)
next
  assume "GetCapacity v = 0"
  with assms have z: "m_capacity v = 0" "m_size v = 0" by (simp_all add: GetCapacity_def)
  have "m_capacity v \<in> doubling_chain" using z by (simp add: doubling_chain_def)
  moreover have "\<forall>c\<in>doubling_chain. m_size v \<le> c \<longrightarrow> m_capacity v \<le> c" using z by simp
  ultimately obtain w where
    w: "PushBack_all xs v = Inr w" "m_size w = m_size v + length xs"
       "elements w = elements v @ xs" "m_size w \<le> m_capacity w"
       "m_capacity w \<in> doubling_chain"
       "\<forall>c\<in>doubling_chain. m_size w \<le> c \<longrightarrow> m_capacity w \<le> c"
    using PushBack_all_effect [OF assms, of xs] by blast
  have "elements v = []" using z by (simp add: elements_def begin_it_def end_it_def)
  with w z show "\<exists>w. PushBack_all xs v = Inr w
              \<and> elements w = xs
              \<and> GetCapacity w \<in> doubling_chain
              \<and> length xs \<le> GetCapacity w
              \<and> (\<forall>c\<in>doubling_chain. length xs \<le> c \<longrightarrow> GetCapacity w \<le> c)"
    by (simp add: GetCapacity_def)
qed

section \<open>Insertion\<close>

lemma std_move_backward_one:
  assumes "p \<le> n" and "n < length blk"
  shows "std_move_backward blk p n (n + 1)
           = Inr (take (Suc p) blk @ take (n - p) (drop p blk) @ drop (Suc n) blk)"
proof (cases "p = n")
  case True
  then show ?thesis by (simp add: std_move_backward_def)
next
  case False
  with assms have "p < n" by simp
  moreover from this have "Suc n - (n - p) = Suc p" by simp
  ultimately show ?thesis using assms by (simp add: std_move_backward_def)
qed

lemma store_after_shift:
  assumes "p < length blk"
  shows "(take (Suc p) blk @ ys)[p := x] = take p blk @ x # ys"
  using assms by (simp add: list_update_append take_Suc_conv_app_nth)

lemma shifted_elements:
  assumes "p \<le> n" and "n < length blk"
  shows "take (Suc n) (take p blk @ x # take (n - p) (drop p blk) @ drop (Suc n) blk)
           = take p (take n blk) @ x # drop p (take n blk)"
  using assms by (auto simp: drop_take min_def Suc_diff_le)

lemma Insert_spare:
  assumes "p \<le> m_size v" and "m_size v < m_capacity v" and "m_size v < length (m_items v)"
  shows "Insert p (Value x) v
         = Inr (p, v\<lparr>m_items := take p (m_items v) @ x # take (m_size v - p) (drop p (m_items v))
                                    @ drop (Suc (m_size v)) (m_items v),
                        m_size := m_size v + 1\<rparr>)"
  using assms
  by (simp add: Insert_def VectorMoveRigth_def begin_it_def end_it_def Let_def
      std_move_backward_one [simplified] subscript_assign_def store_after_shift)

lemma Insert_empty:
  assumes "p \<le> m_size v" and "m_size v \<le> m_capacity v" and "m_capacity v = 0"
  shows "Insert p (Value x) v = Inr (p, v\<lparr>m_items := [x], m_capacity := 1, m_size := 1\<rparr>)"
proof -
  from assms have z: "m_size v = 0" "p = 0" by simp_all
  have "Reserve 1 v = Inr (v\<lparr>m_items := take (m_size v) (m_items v) @ replicate (1 - m_size v) default,
                                 m_capacity := 1\<rparr>)"
    using assms z by (intro Reserve_grows) simp_all
  then show ?thesis
    using assms z
    by (simp add: Insert_def VectorMoveRigth_def begin_it_def end_it_def Let_def
        subscript_assign_def)
qed

lemma Insert_full:
  assumes "p \<le> m_size v" and "m_size v = m_capacity v" and "0 < m_capacity v"
    and "m_capacity v \<le> length (m_items v)"
  shows "Insert p (Value x) v
         = Inr (p, v\<lparr>m_items := take p (m_items v) @ x # take (m_size v - p) (drop p (m_items v))
                                    @ replicate (2 * m_capacity v - Suc (m_size v)) default,
                        m_capacity := 2 * m_capacity v,
                        m_size := m_size v + 1\<rparr>)"
proof -
  define blk where "blk = take (m_size v) (m_items v) @ replicate (2 * m_capacity v - m_size v) default"
  have r: "Reserve (2 * m_capacity v) v = Inr (v\<lparr>m_items := blk, m_capacity := 2 * m_capacity v\<rparr>)"
    unfolding blk_def using assms by (intro Reserve_grows) simp_all
  have len: "m_size v < length blk" using assms by (simp add: blk_def)
  have mb: "std_move_backward blk p (m_size v) (Suc (m_size v))
           = Inr (take (Suc p) blk @ take (m_size v - p) (drop p blk) @ drop (Suc (m_size v)) blk)"
    using std_move_backward_one [OF assms(1) len] by simp
  have p: "p < length blk" using assms(1) len by simp
  have parts: "take p blk = take p (m_items v)"
      "take (m_size v - p) (drop p blk) = take (m_size v - p) (drop p (m_items v))"
      "drop (Suc (m_size v)) blk = replicate (2 * m_capacity v - Suc (m_size v)) default"
    using assms by (simp_all add: blk_def min_def drop_take)
  have branch: "\<not> m_size v < m_capacity v" "m_capacity v \<noteq> 0" using assms by simp_all
  have "Insert p (Value x) v
         = Inr (p, v\<lparr>m_items := take p blk @ x # take (m_size v - p) (drop p blk)
                                    @ drop (Suc (m_size v)) blk,
                        m_capacity := 2 * m_capacity v,
                        m_size := m_size v + 1\<rparr>)"
    using assms(1) p branch
    by (simp add: Insert_def VectorMoveRigth_def begin_it_def end_it_def Let_def r mb
        subscript_assign_def store_after_shift)
  then show ?thesis by (simp only: parts)
qed

text \<open>
  What \<^verbatim>\<open>Insert\<close> does when the slots \<open>[0, capacity)\<close> exist in the block, the position
  is in \<open>[begin, end]\<close> and the argument lies outside the vector: it returns the position,
  at which the argument now is, the elements at and after it are one slot to the right,
  the size grows by 1, and the capacity is unchanged when \<open>size < capacity\<close> held,
  and otherwise becomes 1 from 0 and twice the capacity from any other.
\<close>

lemma Insert_shifts_right_value:
  assumes "m_size v \<le> m_capacity v" and "m_capacity v \<le> length (m_items v)"
    and "pos \<le> GetSize v"
  shows "(\<exists>v'. Insert pos (Value x) v = Inr (pos, v')
          \<and> elements v' = take pos (elements v) @ x # drop pos (elements v)
          \<and> At v' pos = Inr x
          \<and> GetSize v' = GetSize v + 1
          \<and> GetCapacity v' =
              (if GetSize v < GetCapacity v then GetCapacity v
               else if GetCapacity v = 0 then 1 else 2 * GetCapacity v))
       \<and> (\<exists>w. and_then (SimpleVector_init [1, 2, 3::int]) (Insert 1 (Value 9)) = Inr (1, w)
              \<and> elements w = [1, 9, 2, 3] \<and> GetSize w = 4)"
proof (intro conjI)
  have p: "pos \<le> m_size v" using assms(3) by (simp add: GetSize_def)
  have len: "m_size v \<le> length (m_items v)" using assms by simp
  consider (spare) "m_size v < m_capacity v"
    | (empty) "m_size v = m_capacity v" "m_capacity v = 0"
    | (full) "m_size v = m_capacity v" "0 < m_capacity v"
    using assms(1) by fastforce
  then show "\<exists>v'. Insert pos (Value x) v = Inr (pos, v')
          \<and> elements v' = take pos (elements v) @ x # drop pos (elements v)
          \<and> At v' pos = Inr x
          \<and> GetSize v' = GetSize v + 1
          \<and> GetCapacity v' =
              (if GetSize v < GetCapacity v then GetCapacity v
               else if GetCapacity v = 0 then 1 else 2 * GetCapacity v)"
  proof cases
    case spare
    then have n: "m_size v < length (m_items v)" using assms(2) by simp
    let ?V = "v\<lparr>m_items := take pos (m_items v) @ x # take (m_size v - pos) (drop pos (m_items v))
                                    @ drop (Suc (m_size v)) (m_items v),
                        m_size := m_size v + 1\<rparr>"
    have "Insert pos (Value x) v = Inr (pos, ?V)" by (rule Insert_spare [OF p spare n])
    moreover have "elements ?V = take pos (elements v) @ x # drop pos (elements v)"
      using shifted_elements [OF p n, of x] by (simp add: elements_def begin_it_def end_it_def)
    moreover have "At ?V pos = Inr x"
      using p n by (simp add: At_def subscript_def nth_append)
    ultimately show ?thesis
      using spare by (intro exI [of _ ?V]) (simp add: GetSize_def GetCapacity_def)
  next
    case empty
    let ?V = "v\<lparr>m_items := [x], m_capacity := 1, m_size := 1\<rparr>"
    from empty p have z: "m_size v = 0" "pos = 0" by simp_all
    have "Insert pos (Value x) v = Inr (pos, ?V)" by (rule Insert_empty [OF p assms(1) empty(2)])
    moreover have "elements ?V = take pos (elements v) @ x # drop pos (elements v)"
      using z by (simp add: elements_def begin_it_def end_it_def)
    moreover have "At ?V pos = Inr x"
      using z by (simp add: At_def subscript_def)
    ultimately show ?thesis
      using empty by (intro exI [of _ ?V]) (simp add: GetSize_def GetCapacity_def)
  next
    case full
    let ?V = "v\<lparr>m_items := take pos (m_items v) @ x # take (m_size v - pos) (drop pos (m_items v))
                                    @ replicate (2 * m_capacity v - Suc (m_size v)) default,
                        m_capacity := 2 * m_capacity v,
                        m_size := m_size v + 1\<rparr>"
    have "Insert pos (Value x) v = Inr (pos, ?V)" by (rule Insert_full [OF p full assms(2)])
    moreover have "elements ?V = take pos (elements v) @ x # drop pos (elements v)"
      using p len by (auto simp: elements_def begin_it_def end_it_def drop_take min_def Suc_diff_le)
    moreover have "At ?V pos = Inr x"
      using p len by (simp add: At_def subscript_def nth_append)
    ultimately show ?thesis
      using full by (intro exI [of _ ?V]) (simp add: GetSize_def GetCapacity_def)
  qed
next
  show "\<exists>w. and_then (SimpleVector_init [1, 2, 3::int]) (Insert 1 (Value 9)) = Inr (1, w)
              \<and> elements w = [1, 9, 2, 3] \<and> GetSize w = 4"
    by (simp add: SimpleVector_init_def ArrayPtr_def std_copy_def std_move_def Insert_def
        VectorMoveRigth_def Reserve_def std_move_backward_def subscript_assign_def
        begin_it_def end_it_def elements_def GetSize_def Let_def)
qed


section \<open>Comparison operators\<close>

lemma std_equal_prefix:
  "length xs \<le> length ys \<Longrightarrow> std_equal xs ys = Inr (xs = take (length xs) ys)"
  by (induction xs ys rule: std_equal.induct) auto

lemma std_lexicographical_compare_lexord:
  fixes xs :: "('a::linorder) list"
  shows "std_lexicographical_compare xs ys \<longleftrightarrow> (xs, ys) \<in> lexord {(a, b). a < b}"
  by (induction xs ys rule: std_lexicographical_compare.induct) auto

lemma read_range_elements:
  "m_size v \<le> length (m_items v) \<Longrightarrow>
   read_range (m_items v) (begin_it v) (end_it v) = Inr (elements v)"
  by (simp add: read_range_def elements_def begin_it_def end_it_def)

lemma length_elements:
  "m_size v \<le> length (m_items v) \<Longrightarrow> length (elements v) = m_size v"
  by (simp add: elements_def begin_it_def end_it_def)

lemma op_equal_elements:
  assumes "m_size lhs \<le> length (m_items lhs)" and "m_size rhs \<le> length (m_items rhs)"
  shows "op_equal lhs rhs = Inr (elements lhs = elements rhs)"
proof (cases "m_size lhs = m_size rhs")
  case True
  have "length (elements lhs) \<le> length (m_items rhs)"
    using assms True by (simp add: length_elements)
  then have "std_equal (elements lhs) (m_items rhs)
               = Inr (elements lhs = take (length (elements lhs)) (m_items rhs))"
    by (rule std_equal_prefix)
  moreover have "take (length (elements lhs)) (m_items rhs) = elements rhs"
    using assms True by (simp add: length_elements) (simp add: elements_def begin_it_def end_it_def)
  moreover have "read_range (m_items lhs) 0 (end_it lhs) = Inr (elements lhs)"
    using read_range_elements [OF assms(1)] by (simp add: begin_it_def)
  ultimately show ?thesis
    using True by (simp add: op_equal_def GetSize_def begin_it_def)
next
  case False
  then have "elements lhs \<noteq> elements rhs"
    using assms length_elements [of lhs] length_elements [of rhs] by auto
  with False show ?thesis by (simp add: op_equal_def GetSize_def)
qed

text \<open>
  Claim C9. For every two vectors over the same element type whose \<open>size\<close> elements lie
  in their blocks (as they do in every vector that public operations with defined
  behaviour reach), \<^verbatim>\<open>operator==\<close> holds exactly when the sizes are equal and the
  elements at each index below the size are pairwise equal, whatever the capacities, and
  \<^verbatim>\<open>operator<\<close> is the lexicographic comparison of the first \<open>size\<close> elements of each
  (for a linearly ordered element type). In particular two vectors with equal element
  sequences compare equal, whatever their capacities.
\<close>

theorem comparison_on_elements:
  fixes lhs rhs :: "('a::linorder) SimpleVector"
  assumes "m_size lhs \<le> length (m_items lhs)" and "m_size rhs \<le> length (m_items rhs)"
  shows "op_equal lhs rhs
           = Inr (GetSize lhs = GetSize rhs \<and> (\<forall>i<GetSize lhs. m_items lhs ! i = m_items rhs ! i))
       \<and> op_less lhs rhs = Inr ((elements lhs, elements rhs) \<in> lexord {(a, b). a < b})
       \<and> (elements lhs = elements rhs \<longrightarrow> op_equal lhs rhs = Inr True)"
proof (intro conjI impI)
  have nth: "elements v ! i = m_items v ! i" if "i < m_size v" for i and v :: "'a SimpleVector"
    using that by (simp add: elements_def begin_it_def end_it_def)
  have "elements lhs = elements rhs
          \<longleftrightarrow> GetSize lhs = GetSize rhs \<and> (\<forall>i<GetSize lhs. m_items lhs ! i = m_items rhs ! i)"
    using assms by (auto simp: list_eq_iff_nth_eq length_elements GetSize_def nth)
  then show "op_equal lhs rhs
           = Inr (GetSize lhs = GetSize rhs \<and> (\<forall>i<GetSize lhs. m_items lhs ! i = m_items rhs ! i))"
    using op_equal_elements [OF assms] by simp
next
  show "op_less lhs rhs = Inr ((elements lhs, elements rhs) \<in> lexord {(a, b). a < b})"
    using assms by (simp add: op_less_def read_range_elements std_lexicographical_compare_lexord)
next
  assume "elements lhs = elements rhs"
  then show "op_equal lhs rhs = Inr True"
    using op_equal_elements [OF assms] by simp
qed

theorem comparison_on_elements_witness:
  "m_size \<lparr>m_size = 2, m_capacity = 2, m_items = [1, 2::int]\<rparr>
     \<le> length (m_items \<lparr>m_size = 2, m_capacity = 2, m_items = [1, 2::int]\<rparr>)
   \<and> m_size \<lparr>m_size = 2, m_capacity = 4, m_items = [1, 2, 7, 0::int]\<rparr>
     \<le> length (m_items \<lparr>m_size = 2, m_capacity = 4, m_items = [1, 2, 7, 0::int]\<rparr>)
   \<and> elements \<lparr>m_size = 2, m_capacity = 2, m_items = [1, 2::int]\<rparr>
       = elements \<lparr>m_size = 2, m_capacity = 4, m_items = [1, 2, 7, 0::int]\<rparr>
   \<and> op_equal \<lparr>m_size = 2, m_capacity = 2, m_items = [1, 2::int]\<rparr>
        \<lparr>m_size = 2, m_capacity = 4, m_items = [1, 2, 7, 0::int]\<rparr> = Inr True"
  using comparison_on_elements [of "\<lparr>m_size = 2, m_capacity = 2, m_items = [1, 2::int]\<rparr>"
      "\<lparr>m_size = 2, m_capacity = 4, m_items = [1, 2, 7, 0::int]\<rparr>",
      THEN conjunct2, THEN conjunct2]
  by (simp add: elements_def begin_it_def end_it_def)

section \<open>The invariant of the reachable vectors\<close>

subsection \<open>Arguments that are elements of the vector\<close>

lemma PushBack_Element:
  assumes "PushBack (Element j) v = Inr v'"
  shows "m_size v < m_capacity v \<and> j < length (m_items v)
       \<and> PushBack (Value (m_items v ! j)) v = Inr v'"
proof (cases "m_size v < m_capacity v")
  case True
  show ?thesis
  proof (cases "j < length (m_items v)")
    case True
    with \<open>m_size v < m_capacity v\<close> assms show ?thesis
      by (simp add: PushBack_def subscript_def)
  next
    case False
    with \<open>m_size v < m_capacity v\<close> have "PushBack (Element j) v = Inl UndefinedBehaviour"
      by (simp add: PushBack_def subscript_def)
    with assms show ?thesis by simp
  qed
next
  case False
  have re: "Reserve_reallocates (max 1 (2 * m_capacity v)) v"
    by (simp add: Reserve_reallocates_def)
  have "\<exists>e. PushBack (Element j) v = Inl e"
  proof (cases "Reserve (max 1 (2 * m_capacity v)) v")
    case (Inl e)
    with False show ?thesis by (simp add: PushBack_def)
  next
    case (Inr v1)
    with False re show ?thesis by (simp add: PushBack_def)
  qed
  with assms show ?thesis by auto
qed

lemma PushBack_as_Value:
  assumes "PushBack item v = Inr v'"
  shows "\<exists>x. (item = Value x \<or> x \<in> set (m_items v)) \<and> PushBack (Value x) v = Inr v'"
proof (cases item)
  case (Value x)
  with assms show ?thesis by auto
next
  case (Element j)
  with assms PushBack_Element [of j v v'] show ?thesis by (auto intro: nth_mem)
qed

lemma std_move_backward_subset:
  assumes "std_move_backward blk first_it last_it d_last = Inr b"
  shows "set b \<subseteq> set blk"
proof (cases "first_it = last_it")
  case True
  with assms show ?thesis by (simp add: std_move_backward_def)
next
  case False
  with assms have b: "b = take (d_last - (last_it - first_it)) blk
                        @ take (last_it - first_it) (drop first_it blk) @ drop d_last blk"
    by (simp add: std_move_backward_def split: if_splits)
  have "set (take (d_last - (last_it - first_it)) blk) \<subseteq> set blk" by (rule set_take_subset)
  moreover have "set (take (last_it - first_it) (drop first_it blk)) \<subseteq> set blk"
    using set_take_subset [of "last_it - first_it" "drop first_it blk"] set_drop_subset [of first_it blk]
    by blast
  moreover have "set (drop d_last blk) \<subseteq> set blk" by (rule set_drop_subset)
  ultimately show ?thesis unfolding b by simp
qed

lemma VectorMoveRigth_spare:
  assumes "m_size v < m_capacity v" and "VectorMoveRigth pos v = Inr (np, v1)"
  shows "set (m_items v1) \<subseteq> set (m_items v)"
proof (cases "std_move_backward (m_items v) (pos - begin_it v) (end_it v) (m_size v + 1)")
  case (Inl e)
  with assms show ?thesis by (simp add: VectorMoveRigth_def Let_def split: if_splits)
next
  case (Inr b)
  with assms have "m_items v1 = b"
    by (auto simp: VectorMoveRigth_def Let_def split: if_splits)
  with std_move_backward_subset [OF Inr] show ?thesis by simp
qed

lemma Insert_Element:
  assumes "Insert pos (Element j) v = Inr (it, v')"
  shows "\<exists>x\<in>set (m_items v). Insert pos (Value x) v = Inr (it, v')"
proof (cases "VectorMoveRigth pos v")
  case (Inl e)
  with assms show ?thesis by (simp add: Insert_def)
next
  case (Inr r)
  obtain np v1 where r: "r = (np, v1)" by (cases r)
  show ?thesis
  proof (cases "m_size v < m_capacity v")
    case True
    then have live: "\<not> VectorMoveRigth_reallocates v" by (simp add: VectorMoveRigth_reallocates_def)
    show ?thesis
    proof (cases "j < length (m_items v1)")
      case j: True
      from VectorMoveRigth_spare [OF True] Inr r have "set (m_items v1) \<subseteq> set (m_items v)" by simp
      with j have "m_items v1 ! j \<in> set (m_items v)" by (auto intro: nth_mem)
      moreover from assms Inr r live j have "Insert pos (Value (m_items v1 ! j)) v = Inr (it, v')"
        by (simp add: Insert_def subscript_def)
      ultimately show ?thesis by blast
    next
      case False
      with Inr r live have "Insert pos (Element j) v = Inl UndefinedBehaviour"
        by (simp add: Insert_def subscript_def)
      with assms show ?thesis by simp
    qed
  next
    case False
    then have "VectorMoveRigth_reallocates v"
      by (simp add: VectorMoveRigth_reallocates_def Reserve_reallocates_def)
    with Inr r have "Insert pos (Element j) v = Inl UndefinedBehaviour"
      by (simp add: Insert_def)
    with assms show ?thesis by simp
  qed
qed

lemma Insert_as_Value:
  assumes "Insert pos val v = Inr (it, v')"
  shows "\<exists>x. (val = Value x \<or> x \<in> set (m_items v)) \<and> Insert pos (Value x) v = Inr (it, v')"
proof (cases val)
  case (Value x)
  with assms show ?thesis by auto
next
  case (Element j)
  with assms Insert_Element [of pos j v it v'] show ?thesis by auto
qed

subsection \<open>Every operation keeps the state valid\<close>

lemma valid_ctor_size: "SimpleVector_size n = Inr v \<Longrightarrow> valid_state A v"
  by (auto simp: valid_state_def SimpleVector_size_def std_move_away_def read_range_def
      ArrayPtr_def Let_def split: if_splits)

lemma valid_ctor_fill: "SimpleVector_fill n x = Inr v \<Longrightarrow> valid_state A v"
  by (auto simp: valid_state_def SimpleVector_fill_def std_move_away_def read_range_def
      ArrayPtr_def Let_def split: if_splits)

lemma valid_ctor_init: "set xs \<subseteq> A \<Longrightarrow> SimpleVector_init xs = Inr v \<Longrightarrow> valid_state A v"
  by (auto simp: valid_state_def SimpleVector_init_def std_copy_def std_move_def ArrayPtr_def
      Let_def split: if_splits)

lemma valid_state_fields:
  assumes "valid_state A r"
    and "m_size v = m_size r" and "m_capacity v = m_capacity r" and "m_items v = m_items r"
  shows "valid_state A v"
  using assms by (simp add: valid_state_def)

lemma valid_move_assign:
  assumes "valid_state A t" and "valid_state A r"
    and "move_assign this rhs (Map.empty(this \<mapsto> t, rhs \<mapsto> r)) = Inr s" and "s a = Some v"
  shows "valid_state A v"
proof (cases "this = rhs")
  case True
  with assms(3,4) have "v = r" by (auto simp: move_assign_def split: if_splits)
  with assms(2) show ?thesis by simp
next
  case False
  with assms(3) have s: "s = (Map.empty(this \<mapsto> t, rhs \<mapsto> r))
                            (rhs \<mapsto> snd (SimpleVector_move r),
                             this \<mapsto> fst (swap_vec t (fst (SimpleVector_move r))))"
    by (auto simp: move_assign_def split: prod.splits)
  show ?thesis
  proof (cases "a = this")
    case True
    with s assms(4) have "v = fst (swap_vec t (fst (SimpleVector_move r)))" by simp
    then have "m_size v = m_size r" "m_capacity v = m_capacity r" "m_items v = m_items r"
      by (simp_all add: swap_vec_def SimpleVector_move_def)
    with assms(2) show ?thesis by (rule valid_state_fields)
  next
    case False
    with s assms(4) \<open>this \<noteq> rhs\<close> have "v = snd (SimpleVector_move r)"
      by (auto split: if_splits)
    then show ?thesis by (simp add: SimpleVector_move_def valid_state_def)
  qed
qed

lemma valid_Reserve:
  assumes "valid_state A v" and "Reserve n v = Inr v'"
  shows "valid_state A v'"
proof (cases "m_capacity v \<le> n")
  case True
  with assms(1) have "Reserve n v = Inr (v\<lparr>m_items := take (m_size v) (m_items v) @ replicate (n - m_size v) default,
                                 m_capacity := n\<rparr>)"
    by (intro Reserve_grows) (auto simp: valid_state_def)
  moreover have "set (take (m_size v) (m_items v)) \<subseteq> set (m_items v)"
    by (rule set_take_subset)
  ultimately show ?thesis using assms True by (auto simp: valid_state_def dest: subsetD)
next
  case False
  with assms show ?thesis by (simp add: Reserve_def)
qed

lemma valid_Resize:
  assumes "valid_state A v" and "Resize n v = Inr v'"
  shows "valid_state A v'"
proof -
  have inv: "m_size v \<le> m_capacity v" "length (m_items v) = m_capacity v"
    using assms(1) by (simp_all add: valid_state_def)
  consider (shrink) "n < m_size v" | (within) "m_size v \<le> n" "n \<le> m_capacity v"
    | (grow) "m_capacity v < n"
    using inv by linarith
  then show ?thesis
  proof cases
    case shrink
    with assms show ?thesis by (auto simp: Resize_def valid_state_def)
  next
    case within
    with assms show ?thesis
      by (auto simp: Resize_def valid_state_def std_move_away_def read_range_def end_it_def
          split: if_splits)
  next
    case grow
    define m where "m = max n (2 * m_capacity v)"
    have "m_capacity v \<le> m" by (simp add: m_def)
    obtain v1 where v1: "Reserve m v = Inr v1"
      using Reserve_grows [of v m] inv \<open>m_capacity v \<le> m\<close> by auto
    from valid_Reserve [OF assms(1) v1] have val1: "valid_state A v1" .
    have cap1: "m_capacity v1 = m" "m_size v1 = m_size v"
      using v1 Reserve_grows [of v m] inv \<open>m_capacity v \<le> m\<close> by auto
    have "\<not> n < m_size v" "\<not> n \<le> m_capacity v" "n \<le> m" using grow inv by (auto simp: m_def)
    with assms(2) val1 cap1 show ?thesis
      unfolding Resize_def m_def [symmetric]
      by (auto simp: v1 valid_state_def std_move_away_def read_range_def split: if_splits)
  qed
qed

lemma valid_PushBack_Value:
  assumes "valid_state A v" and "x \<in> insert default A" and "PushBack (Value x) v = Inr v'"
  shows "valid_state A v'"
proof -
  have inv: "m_size v \<le> m_capacity v" "length (m_items v) = m_capacity v"
    and sub: "set (m_items v) \<subseteq> insert default A"
    using assms(1) by (simp_all add: valid_state_def)
  show ?thesis
  proof (cases "m_size v < m_capacity v")
    case True
    with inv have n: "m_size v < length (m_items v)" by simp
    from assms(3) have "v' = v\<lparr>m_items := (m_items v)[m_size v := x], m_size := m_size v + 1\<rparr>"
      by (simp add: PushBack_spare [OF True n])
    moreover have "set ((m_items v)[m_size v := x]) \<subseteq> insert x (set (m_items v))"
      by (rule set_update_subset_insert)
    ultimately show ?thesis using True inv sub assms(2) by (auto simp: valid_state_def)
  next
    case False
    with inv have eq: "m_size v = m_capacity v" and c: "m_capacity v \<le> length (m_items v)"
      by simp_all
    define m where "m = max 1 (2 * m_capacity v)"
    have m: "m_capacity v < m" by (auto simp: m_def)
    from assms(3) have v': "v' = v\<lparr>m_size := m_size v + 1, m_capacity := m,
                m_items := take (m_size v) (m_items v) @ x # replicate (m - Suc (m_size v)) default\<rparr>"
      by (simp add: PushBack_full [OF eq c] m_def)
    have "set (take (m_size v) (m_items v)) \<subseteq> set (m_items v)" by (rule set_take_subset)
    with v' m eq inv sub assms(2) show ?thesis
      by (auto simp: valid_state_def)
  qed
qed

lemma valid_PushBack:
  assumes "valid_state A v" and "supplied A item" and "PushBack item v = Inr v'"
  shows "valid_state A v'"
proof -
  from PushBack_as_Value [OF assms(3)] obtain x where
    x: "item = Value x \<or> x \<in> set (m_items v)" "PushBack (Value x) v = Inr v'" by blast
  have "x \<in> insert default A"
    using x(1) assms(1,2) by (auto simp: supplied_def valid_state_def)
  from valid_PushBack_Value [OF assms(1) this x(2)] show ?thesis .
qed

lemma Insert_position:
  "Insert pos (Value x) v = Inr (it, v') \<Longrightarrow> pos \<le> m_size v"
  by (cases "m_size v < pos") (simp_all add: Insert_def VectorMoveRigth_def begin_it_def end_it_def)

lemma valid_Insert_Value:
  assumes "valid_state A v" and "x \<in> insert default A" and "Insert pos (Value x) v = Inr (it, v')"
  shows "valid_state A v'"
proof -
  have inv: "m_size v \<le> m_capacity v" "length (m_items v) = m_capacity v"
    and sub: "set (m_items v) \<subseteq> insert default A"
    using assms(1) by (simp_all add: valid_state_def)
  have p: "pos \<le> m_size v" using assms(3) by (rule Insert_position)
  have parts: "set (take pos (m_items v)) \<subseteq> set (m_items v)"
    "set (take (m_size v - pos) (drop pos (m_items v))) \<subseteq> set (m_items v)"
    "set (drop (Suc (m_size v)) (m_items v)) \<subseteq> set (m_items v)"
    using set_take_subset [of pos "m_items v"]
      set_take_subset [of "m_size v - pos" "drop pos (m_items v)"] set_drop_subset [of pos "m_items v"]
      set_drop_subset [of "Suc (m_size v)" "m_items v"]
    by blast+
  consider (spare) "m_size v < m_capacity v"
    | (empty) "m_size v = m_capacity v" "m_capacity v = 0"
    | (full) "m_size v = m_capacity v" "0 < m_capacity v"
    using inv by fastforce
  then show ?thesis
  proof cases
    case spare
    with inv have n: "m_size v < length (m_items v)" by simp
    from assms(3) have "v' = v\<lparr>m_items := take pos (m_items v) @ x # take (m_size v - pos) (drop pos (m_items v))
                                    @ drop (Suc (m_size v)) (m_items v),
                        m_size := m_size v + 1\<rparr>"
      by (auto simp: Insert_spare [OF p spare n])
    with spare inv sub p parts assms(2) show ?thesis by (auto simp: valid_state_def)
  next
    case empty
    from assms(3) have "v' = v\<lparr>m_items := [x], m_capacity := 1, m_size := 1\<rparr>"
      by (auto simp: Insert_empty [OF p inv(1) empty(2)])
    with assms(2) show ?thesis by (auto simp: valid_state_def)
  next
    case full
    from inv have c: "m_capacity v \<le> length (m_items v)" by simp
    from assms(3) have "v' = v\<lparr>m_items := take pos (m_items v) @ x # take (m_size v - pos) (drop pos (m_items v))
                                    @ replicate (2 * m_capacity v - Suc (m_size v)) default,
                        m_capacity := 2 * m_capacity v,
                        m_size := m_size v + 1\<rparr>"
      by (auto simp: Insert_full [OF p full c])
    with full inv sub p parts assms(2) show ?thesis by (auto simp: valid_state_def)
  qed
qed

lemma valid_Insert:
  assumes "valid_state A v" and "supplied A val" and "Insert pos val v = Inr (it, v')"
  shows "valid_state A v'"
proof -
  from Insert_as_Value [OF assms(3)] obtain x where
    x: "val = Value x \<or> x \<in> set (m_items v)" "Insert pos (Value x) v = Inr (it, v')" by blast
  have "x \<in> insert default A"
    using x(1) assms(1,2) by (auto simp: supplied_def valid_state_def)
  from valid_Insert_Value [OF assms(1) this x(2)] show ?thesis .
qed

lemma valid_PopBack:
  assumes "valid_state A v" and "PopBack v = Inr v'"
  shows "valid_state A v'"
  using assms by (auto simp: valid_state_def PopBack_def split: if_splits)

lemma std_move_within_subset:
  assumes "std_move blk first_it last_it blk d_first = Inr b"
  shows "set b \<subseteq> set blk \<and> length b = length blk"
proof (cases "first_it = last_it")
  case True
  with assms show ?thesis by (simp add: std_move_def)
next
  case False
  with assms have b: "b = take d_first blk @ take (last_it - first_it) (drop first_it blk)
                @ drop (d_first + (last_it - first_it)) blk"
    and le: "first_it < last_it" "last_it \<le> length blk" "d_first + (last_it - first_it) \<le> length blk"
    by (simp_all add: std_move_def split: if_splits)
  have "set (take d_first blk) \<subseteq> set blk" by (rule set_take_subset)
  moreover have "set (take (last_it - first_it) (drop first_it blk)) \<subseteq> set blk"
    using set_take_subset [of "last_it - first_it" "drop first_it blk"] set_drop_subset [of first_it blk]
    by blast
  moreover have "set (drop (d_first + (last_it - first_it)) blk) \<subseteq> set blk" by (rule set_drop_subset)
  moreover have "length b = length blk" unfolding b using le by simp
  ultimately show ?thesis unfolding b by simp
qed

lemma valid_Erase:
  assumes "valid_state A v" and "Erase pos v = Inr (it, v')"
  shows "valid_state A v'"
proof (cases "std_move (m_items v) (pos - begin_it v + 1) (end_it v) (m_items v) (pos - begin_it v)")
  case (Inl e)
  with assms(2) show ?thesis by (simp add: Erase_def Let_def split: if_splits)
next
  case (Inr b)
  with assms(2) have v': "v' = v\<lparr>m_items := b, m_size := m_size v - 1\<rparr>"
    by (auto simp: Erase_def Let_def split: if_splits)
  from std_move_within_subset [OF Inr] assms(1) show ?thesis
    unfolding v' by (auto simp: valid_state_def)
qed

subsection \<open>Every operation keeps the elements inside the block\<close>

lemma ctor_copy_in_block:
  assumes "m_size other \<le> m_capacity other \<and> m_size other \<le> length (m_items other)"
    and "SimpleVector_copy other = Inr v"
  shows "m_size v \<le> m_capacity v \<and> m_size v \<le> length (m_items v)"
  using assms
  by (auto simp: SimpleVector_copy_def std_copy_def std_move_def ArrayPtr_def Let_def
      split: if_splits)

lemma ctor_reserve_in_block:
  "m_size (SimpleVector_reserve obj) \<le> m_capacity (SimpleVector_reserve obj)
   \<and> m_size (SimpleVector_reserve obj) \<le> length (m_items (SimpleVector_reserve obj))"
  by (simp add: SimpleVector_reserve_def)

lemma copy_assign_in_block:
  assumes "m_size t \<le> m_capacity t \<and> m_size t \<le> length (m_items t)"
    and "m_size r \<le> m_capacity r \<and> m_size r \<le> length (m_items r)"
    and "copy_assign this rhs (Map.empty(this \<mapsto> t, rhs \<mapsto> r)) = Inr s" and "s a = Some v"
  shows "m_size v \<le> m_capacity v \<and> m_size v \<le> length (m_items v)"
proof (cases "this = rhs")
  case True
  with assms show ?thesis by (auto simp: copy_assign_def split: if_splits)
next
  case False
  with assms(3) obtain tmp where tmp: "SimpleVector_copy r = Inr tmp"
    and s: "s = (Map.empty(this \<mapsto> t, rhs \<mapsto> r))(this \<mapsto> fst (swap_vec t tmp))"
    by (cases "SimpleVector_copy r") (auto simp: copy_assign_def split: prod.splits)
  from ctor_copy_in_block [OF assms(2) tmp]
  have "m_size tmp \<le> m_capacity tmp \<and> m_size tmp \<le> length (m_items tmp)" .
  with assms(2,4) s False show ?thesis
    by (auto simp: swap_vec_def split: if_splits)
qed

lemma move_assign_in_block:
  assumes "m_size t \<le> m_capacity t \<and> m_size t \<le> length (m_items t)"
    and "m_size r \<le> m_capacity r \<and> m_size r \<le> length (m_items r)"
    and "move_assign this rhs (Map.empty(this \<mapsto> t, rhs \<mapsto> r)) = Inr s" and "s a = Some v"
  shows "m_size v \<le> m_capacity v \<and> m_size v \<le> length (m_items v)"
  using assms
  by (auto simp: move_assign_def SimpleVector_move_def swap_vec_def split: if_splits)

lemma Resize_in_block:
  assumes "m_size v \<le> m_capacity v \<and> m_size v \<le> length (m_items v)"
    and "Resize n v = Inr v'"
  shows "m_size v' \<le> m_capacity v' \<and> m_size v' \<le> length (m_items v')"
proof -
  consider (shrink) "n < m_size v" | (within) "m_size v \<le> n" "n \<le> m_capacity v"
    | (grow) "m_capacity v < n"
    using assms(1) by linarith
  then show ?thesis
  proof cases
    case shrink
    with assms show ?thesis by (auto simp: Resize_def)
  next
    case within
    with assms show ?thesis
      by (auto simp: Resize_def std_move_away_def read_range_def end_it_def split: if_splits)
  next
    case grow
    define m where "m = max n (2 * m_capacity v)"
    have r: "Reserve m v = Inr (v\<lparr>m_items := take (m_size v) (m_items v) @ replicate (m - m_size v) default,
                                 m_capacity := m\<rparr>)"
      using assms(1) grow by (intro Reserve_grows) (auto simp: m_def)
    have "\<not> n < m_size v" "\<not> n \<le> m_capacity v" "n \<le> m" using grow assms(1) by (auto simp: m_def)
    with assms(1,2) show ?thesis
      unfolding Resize_def m_def [symmetric]
      by (auto simp: r std_move_away_def read_range_def split: if_splits)
  qed
qed

lemma PushBack_needs_slot:
  assumes "m_size v < m_capacity v" and "PushBack (Value x) v = Inr v'"
  shows "m_size v < length (m_items v)"
proof (rule ccontr)
  assume "\<not> m_size v < length (m_items v)"
  with assms(1) have "PushBack (Value x) v = Inl UndefinedBehaviour"
    by (simp add: PushBack_def subscript_assign_def)
  with assms(2) show False by simp
qed

lemma PushBack_in_block:
  assumes "m_size v \<le> m_capacity v \<and> m_size v \<le> length (m_items v)"
    and "PushBack (Value x) v = Inr v'"
  shows "m_size v' \<le> m_capacity v' \<and> m_size v' \<le> length (m_items v')"
proof (cases "m_size v < m_capacity v")
  case True
  from PushBack_needs_slot [OF True assms(2)] have n: "m_size v < length (m_items v)" .
  from assms(2) True n show ?thesis by (auto simp: PushBack_spare [OF True n])
next
  case False
  with assms(1) have eq: "m_size v = m_capacity v" and c: "m_capacity v \<le> length (m_items v)"
    by simp_all
  from assms(1) have a: "m_size v \<le> m_capacity v" by simp
  have "m_capacity v < max 1 (2 * m_capacity v)" by auto
  with PushBack_effect [OF a c, of x] assms(2) eq False show ?thesis
    by (auto simp del: max.absorb1 max.absorb2 max.absorb3 max.absorb4)
qed

lemma Insert_needs_slot:
  assumes "m_size v < m_capacity v" and "Insert pos (Value x) v = Inr (it, v')"
  shows "m_size v < length (m_items v)"
proof (rule ccontr)
  assume n: "\<not> m_size v < length (m_items v)"
  have p: "pos \<le> m_size v" using assms(2) by (rule Insert_position)
  have "Insert pos (Value x) v = Inl UndefinedBehaviour"
  proof (cases "pos = m_size v")
    case True
    with assms(1) n show ?thesis
      by (simp add: Insert_def VectorMoveRigth_def begin_it_def end_it_def Let_def
          std_move_backward_def subscript_assign_def)
  next
    case False
    with assms(1) n p show ?thesis
      by (simp add: Insert_def VectorMoveRigth_def begin_it_def end_it_def Let_def
          std_move_backward_def)
  qed
  with assms(2) show False by simp
qed

lemma Insert_in_block:
  assumes "m_size v \<le> m_capacity v \<and> m_size v \<le> length (m_items v)"
    and "Insert pos (Value x) v = Inr (it, v')"
  shows "m_size v' \<le> m_capacity v' \<and> m_size v' \<le> length (m_items v')"
proof -
  have p: "pos \<le> m_size v" using assms(2) by (rule Insert_position)
  consider (spare) "m_size v < m_capacity v"
    | (empty) "m_size v = m_capacity v" "m_capacity v = 0"
    | (full) "m_size v = m_capacity v" "0 < m_capacity v"
    using assms(1) by fastforce
  then show ?thesis
  proof cases
    case spare
    from Insert_needs_slot [OF spare assms(2)] have n: "m_size v < length (m_items v)" .
    from assms(2) have "v' = v\<lparr>m_items := take pos (m_items v) @ x # take (m_size v - pos) (drop pos (m_items v))
                                    @ drop (Suc (m_size v)) (m_items v),
                        m_size := m_size v + 1\<rparr>"
      by (auto simp: Insert_spare [OF p spare n])
    with spare n p show ?thesis by simp
  next
    case empty
    from assms(1) have c: "m_size v \<le> m_capacity v" by simp
    from assms(2) have "v' = v\<lparr>m_items := [x], m_capacity := 1, m_size := 1\<rparr>"
      by (auto simp: Insert_empty [OF p c empty(2)])
    then show ?thesis by simp
  next
    case full
    with assms(1) have c: "m_capacity v \<le> length (m_items v)" by simp
    from assms(2) have "v' = v\<lparr>m_items := take pos (m_items v) @ x # take (m_size v - pos) (drop pos (m_items v))
                                    @ replicate (2 * m_capacity v - Suc (m_size v)) default,
                        m_capacity := 2 * m_capacity v,
                        m_size := m_size v + 1\<rparr>"
      by (auto simp: Insert_full [OF p full c])
    with full assms(1) p show ?thesis by simp
  qed
qed

lemma PopBack_in_block:
  assumes "m_size v \<le> m_capacity v \<and> m_size v \<le> length (m_items v)"
    and "PopBack v = Inr v'"
  shows "m_size v' \<le> m_capacity v' \<and> m_size v' \<le> length (m_items v')"
  using assms by (auto simp: PopBack_def split: if_splits)

lemma Erase_in_block:
  assumes "m_size v \<le> m_capacity v \<and> m_size v \<le> length (m_items v)"
    and "Erase pos v = Inr (it, v')"
  shows "m_size v' \<le> m_capacity v' \<and> m_size v' \<le> length (m_items v')"
  using assms
  by (auto simp: Erase_def std_move_def begin_it_def end_it_def Let_def split: if_splits)

lemma Reserve_in_block:
  assumes "m_size v \<le> m_capacity v \<and> m_size v \<le> length (m_items v)"
    and "Reserve n v = Inr v'"
  shows "m_size v' \<le> m_capacity v' \<and> m_size v' \<le> length (m_items v')"
proof (cases "m_capacity v \<le> n")
  case True
  with assms(1) have "Reserve n v = Inr (v\<lparr>m_items := take (m_size v) (m_items v) @ replicate (n - m_size v) default,
                                 m_capacity := n\<rparr>)"
    by (intro Reserve_grows) auto
  with assms True show ?thesis by auto
next
  case False
  with assms show ?thesis by (simp add: Reserve_def)
qed


lemma PushBack_arg_in_block:
  assumes "m_size v \<le> m_capacity v \<and> m_size v \<le> length (m_items v)"
    and "PushBack item v = Inr v'"
  shows "m_size v' \<le> m_capacity v' \<and> m_size v' \<le> length (m_items v')"
proof -
  from PushBack_as_Value [OF assms(2)] obtain x where "PushBack (Value x) v = Inr v'" by blast
  with assms(1) show ?thesis by (rule PushBack_in_block)
qed

lemma Insert_arg_in_block:
  assumes "m_size v \<le> m_capacity v \<and> m_size v \<le> length (m_items v)"
    and "Insert pos val v = Inr (it, v')"
  shows "m_size v' \<le> m_capacity v' \<and> m_size v' \<le> length (m_items v')"
proof -
  from Insert_as_Value [OF assms(2)] obtain x where "Insert pos (Value x) v = Inr (it, v')" by blast
  with assms(1) show ?thesis by (rule Insert_in_block)
qed

subsection \<open>The invariant\<close>

lemma reachable_state:
  assumes "reachable copies A v"
  shows "(m_size v \<le> m_capacity v \<and> m_size v \<le> length (m_items v))
       \<and> (\<not> copies \<longrightarrow> valid_state A v)"
  using assms
proof induction
  case reach_default
  show ?case by (simp add: SimpleVector_default_def valid_state_def)
next
  case (reach_size n v)
  from valid_ctor_size [OF this, of A] show ?case by (simp add: valid_state_def)
next
  case (reach_fill x n v)
  from valid_ctor_fill [OF reach_fill(2), of A] show ?case by (simp add: valid_state_def)
next
  case (reach_init xs v)
  from valid_ctor_init [OF this] show ?case by (simp add: valid_state_def)
next
  case (reach_copy other v)
  from reach_copy.IH have "m_size other \<le> m_capacity other \<and> m_size other \<le> length (m_items other)"
    by simp
  from ctor_copy_in_block [OF this reach_copy.hyps(3)] reach_copy.hyps(1) show ?case by simp
next
  case (reach_reserve obj)
  with ctor_reserve_in_block [of obj] show ?case by simp
next
  case (reach_copy_assign t r this rhs s a v)
  from reach_copy_assign.IH
  have "m_size t \<le> m_capacity t \<and> m_size t \<le> length (m_items t)"
    and "m_size r \<le> m_capacity r \<and> m_size r \<le> length (m_items r)" by simp_all
  from copy_assign_in_block [OF this reach_copy_assign.hyps(4,5)] reach_copy_assign.hyps(1)
  show ?case by simp
next
  case (reach_move_new other)
  then show ?case by (simp add: SimpleVector_move_def valid_state_def)
next
  case (reach_move_old other)
  show ?case by (simp add: SimpleVector_move_def valid_state_def)
next
  case (reach_move_assign t r this rhs s a v)
  from reach_move_assign.IH
  have "m_size t \<le> m_capacity t \<and> m_size t \<le> length (m_items t)"
    and "m_size r \<le> m_capacity r \<and> m_size r \<le> length (m_items r)" by simp_all
  from move_assign_in_block [OF this reach_move_assign.hyps(3,4)]
  have blk: "m_size v \<le> m_capacity v \<and> m_size v \<le> length (m_items v)" .
  have "valid_state A v" if "\<not> copies"
  proof -
    from that reach_move_assign.IH have "valid_state A t" and "valid_state A r" by simp_all
    from valid_move_assign [OF this reach_move_assign.hyps(3,4)] show ?thesis .
  qed
  with blk show ?case by simp
next
  case (reach_swap_this a b)
  then show ?case by (simp add: swap_vec_def valid_state_def)
next
  case (reach_swap_other a b)
  then show ?case by (simp add: swap_vec_def valid_state_def)
next
  case (reach_Clear v)
  then show ?case by (simp add: Clear_def valid_state_def)
next
  case (reach_Resize v n v')
  from reach_Resize.IH Resize_in_block [OF _ reach_Resize.hyps(2)]
    valid_Resize [OF _ reach_Resize.hyps(2), of A]
  show ?case by blast
next
  case (reach_PushBack v item v')
  from reach_PushBack.IH PushBack_arg_in_block [OF _ reach_PushBack.hyps(3)]
    valid_PushBack [OF _ reach_PushBack.hyps(2,3)]
  show ?case by blast
next
  case (reach_Insert v val pos it v')
  from reach_Insert.IH Insert_arg_in_block [OF _ reach_Insert.hyps(3)]
    valid_Insert [OF _ reach_Insert.hyps(2,3)]
  show ?case by blast
next
  case (reach_PopBack v v')
  from reach_PopBack.IH PopBack_in_block [OF _ reach_PopBack.hyps(2)]
    valid_PopBack [OF _ reach_PopBack.hyps(2), of A]
  show ?case by blast
next
  case (reach_Erase v pos it v')
  from reach_Erase.IH Erase_in_block [OF _ reach_Erase.hyps(2)]
    valid_Erase [OF _ reach_Erase.hyps(2), of A]
  show ?case by blast
next
  case (reach_Reserve v n v')
  from reach_Reserve.IH Reserve_in_block [OF _ reach_Reserve.hyps(2)]
    valid_Reserve [OF _ reach_Reserve.hyps(2), of A]
  show ?case by blast
qed

lemma reachable_in_block:
  "reachable copies A v \<Longrightarrow> m_size v \<le> m_capacity v \<and> m_size v \<le> length (m_items v)"
  using reachable_state by blast

text \<open>
  Claim C1, as amended. For every vector reached by a sequence of public operations in
  which every call has defined behaviour, which uses neither copy construction, copy
  assignment nor the constructor from a reservation hint, and whose arguments are values
  of \<open>A\<close> or elements of the vector: \<open>0 \<le> size \<le> capacity\<close>; the underlying block has
  exactly \<open>capacity\<close> slots, so that the indices \<open>[0, size)\<close> and \<open>[size, capacity)\<close>
  exist; every index in \<open>[0, size)\<close> holds a constructed or assigned value, that is
  the default value or a value of \<open>A\<close>; and every index in \<open>[size, capacity)\<close> holds the
  default value or a value of \<open>A\<close> as well. Such a slot need not hold the default value:
  \<^verbatim>\<open>Clear\<close>, \<^verbatim>\<open>PopBack\<close>, \<^verbatim>\<open>Erase\<close> and a shrinking \<^verbatim>\<open>Resize\<close> only lower
  \<open>size\<close> and leave the removed values in place.
\<close>

theorem reachable_invariant:
  assumes "reachable False A v"
  shows "GetSize v \<le> GetCapacity v
       \<and> length (m_items v) = GetCapacity v
       \<and> (\<forall>i<GetSize v. m_items v ! i \<in> insert default A)
       \<and> (\<forall>i. GetSize v \<le> i \<and> i < GetCapacity v \<longrightarrow> m_items v ! i \<in> insert default A)"
proof -
  from reachable_state [OF assms] have "valid_state A v" by simp
  then have inv: "m_size v \<le> m_capacity v" "length (m_items v) = m_capacity v"
    and sub: "set (m_items v) \<subseteq> insert default A"
    by (simp_all add: valid_state_def)
  have "m_items v ! i \<in> insert default A" if "i < m_capacity v" for i
  proof -
    from that inv have "m_items v ! i \<in> set (m_items v)" by simp
    with sub show ?thesis by blast
  qed
  with inv show ?thesis by (simp add: GetSize_def GetCapacity_def)
qed

lemma reachable_after_PopBack:
  "reachable copies {1, 2, 3} \<lparr>m_size = 2, m_capacity = 3, m_items = [1, 2, 3::int]\<rparr>"
proof -
  have "set [1, 2, 3::int] \<subseteq> {1, 2, 3}" by simp
  moreover have "SimpleVector_init [1, 2, 3::int]
                   = Inr \<lparr>m_size = 3, m_capacity = 3, m_items = [1, 2, 3]\<rparr>"
    by (simp add: SimpleVector_init_def ArrayPtr_def std_copy_def std_move_def)
  ultimately have "reachable copies {1, 2, 3} \<lparr>m_size = 3, m_capacity = 3, m_items = [1, 2, 3::int]\<rparr>"
    by (rule reach_init)
  moreover have "PopBack \<lparr>m_size = 3, m_capacity = 3, m_items = [1, 2, 3::int]\<rparr>
                   = Inr \<lparr>m_size = 2, m_capacity = 3, m_items = [1, 2, 3]\<rparr>"
    by (simp add: PopBack_def IsEmpty_def)
  ultimately show ?thesis by (rule reach_PopBack)
qed

theorem reachable_invariant_witness:
  "reachable False {1, 2, 3} \<lparr>m_size = 2, m_capacity = 3, m_items = [1, 2, 3::int]\<rparr>
   \<and> GetSize \<lparr>m_size = 2, m_capacity = 3, m_items = [1, 2, 3::int]\<rparr> = 2
   \<and> GetCapacity \<lparr>m_size = 2, m_capacity = 3, m_items = [1, 2, 3::int]\<rparr> = 3
   \<and> length (m_items \<lparr>m_size = 2, m_capacity = 3, m_items = [1, 2, 3::int]\<rparr>)
       = GetCapacity \<lparr>m_size = 2, m_capacity = 3, m_items = [1, 2, 3::int]\<rparr>
   \<and> m_items \<lparr>m_size = 2, m_capacity = 3, m_items = [1, 2, 3::int]\<rparr> ! 1 \<in> insert default {1, 2, 3}
   \<and> m_items \<lparr>m_size = 2, m_capacity = 3, m_items = [1, 2, 3::int]\<rparr> ! 2 \<in> insert default {1, 2, 3}"
  using reachable_invariant [OF reachable_after_PopBack [of False]] reachable_after_PopBack [of False]
  by (simp add: GetSize_def GetCapacity_def)

text \<open>
  Claim C1, as stated, fails: \<open>{1, 2, 3}\<close> after \<^verbatim>\<open>PopBack\<close> has size 2 and capacity 3,
  and the slot at index 2 still holds 3, not the default value 0.
\<close>

theorem stale_slot_counterexample:
  "reachable True {1, 2, 3} \<lparr>m_size = 2, m_capacity = 3, m_items = [1, 2, 3::int]\<rparr>
   \<and> \<not> spec_invariant \<lparr>m_size = 2, m_capacity = 3, m_items = [1, 2, 3::int]\<rparr>"
  using reachable_after_PopBack [of True] by (simp add: spec_invariant_def default_int_def)

section \<open>Where the code departs from its specification\<close>

text \<open>
  Claim C2. The constructor from a reservation hint records the capacity \<open>h\<close> and
  allocates no slot, so the first \<^verbatim>\<open>PushBack\<close> that follows writes \<^verbatim>\<open>items_[0]\<close>
  outside the (empty) block: with \<open>h = 1\<close> the one \<^verbatim>\<open>PushBack\<close> the claim speaks of is
  undefined behaviour and leaves no vector holding the value.
\<close>

theorem reserve_ctor_PushBack_undefined:
  "SimpleVector_reserve (Reserve_proxy 1)
     = \<lparr>m_size = 0, m_capacity = 1, m_items = ([]::int list)\<rparr>
   \<and> PushBack (Value (7::int)) (SimpleVector_reserve (Reserve_proxy 1)) = Inl UndefinedBehaviour"
  by (simp add: SimpleVector_reserve_def Reserve_proxy_def ArrayPtr_def PushBack_def
      subscript_assign_def)

text \<open>
  Claim C3. \<^verbatim>\<open>Resize\<close> to a size within the capacity stores nothing into the slots
  between the old and the new size: after \<open>{1, 2, 3}\<close> is resized to 1 and then to 3, the
  indices 1 and 2 read 2 and 3, the values of the truncated elements, not the default 0.
\<close>

theorem Resize_regrow_keeps_stale:
  "and_then (SimpleVector_init [1, 2, 3::int]) (\<lambda>v. and_then (Resize 1 v) (Resize 3))
     = Inr \<lparr>m_size = 3, m_capacity = 3, m_items = [1, 2, 3]\<rparr>"
  by (simp add: SimpleVector_init_def ArrayPtr_def std_copy_def std_move_def Resize_def
      std_move_away_def read_range_def end_it_def)

text \<open>
  Claim C4. The constructor from a size and a value stores the value nowhere: the vector
  constructed with \<open>(2, 7)\<close> has size 2 and capacity 2, and both elements are the
  default 0, not 7.
\<close>

theorem fill_ctor_leaves_default:
  "SimpleVector_fill 2 (7::int) = Inr \<lparr>m_size = 2, m_capacity = 2, m_items = [0, 0]\<rparr>"
  by (simp add: SimpleVector_fill_def ArrayPtr_def std_move_away_def read_range_def
      default_int_def numeral_2_eq_2)

text \<open>
  Claim C8. The copy constructor allocates \<^verbatim>\<open>other.size_\<close> slots and records
  \<^verbatim>\<open>other.capacity_\<close>. The copy of \<open>{1}\<close> with capacity 2 has capacity 2 and a block of
  one slot, so \<^verbatim>\<open>PushBack\<close> on the copy writes outside its block: the mutation of the
  copy that the claim speaks of is undefined behaviour, after which nothing is guaranteed
  of either vector.
\<close>

theorem copy_then_PushBack_undefined:
  "and_then (SimpleVector_init [1::int]) (Reserve 2)
     = Inr \<lparr>m_size = 1, m_capacity = 2, m_items = [1, 0]\<rparr>
   \<and> SimpleVector_copy \<lparr>m_size = 1, m_capacity = 2, m_items = [1, 0::int]\<rparr>
     = Inr \<lparr>m_size = 1, m_capacity = 2, m_items = [1]\<rparr>
   \<and> PushBack (Value 5) \<lparr>m_size = 1, m_capacity = 2, m_items = [1::int]\<rparr> = Inl UndefinedBehaviour"
  by (simp add: SimpleVector_init_def ArrayPtr_def std_copy_def std_move_def Reserve_def
      SimpleVector_copy_def PushBack_def subscript_assign_def begin_it_def end_it_def
      default_int_def numeral_2_eq_2)

text \<open>
  Claim C5. \<^verbatim>\<open>PushBack\<close> reads its argument after \<^verbatim>\<open>Reserve\<close>. On the full vector
  \<open>{1, 2}\<close>, \<^verbatim>\<open>PushBack(v[0])\<close> passes a reference to the element at index 0, whose
  value is 1; \<^verbatim>\<open>Reserve\<close> moves the elements to a new block and releases the old one, and
  the assignment then reads the argument in the released block: undefined behaviour, where
  the claim has the vector become \<open>{1, 2, 1}\<close> with capacity 4, as it does for the same
  value passed from outside the vector.
\<close>

theorem PushBack_own_element_undefined:
  "SimpleVector_init [1, 2::int] = Inr \<lparr>m_size = 2, m_capacity = 2, m_items = [1, 2]\<rparr>
   \<and> At \<lparr>m_size = 2, m_capacity = 2, m_items = [1, 2::int]\<rparr> 0 = Inr 1
   \<and> PushBack (Element 0) \<lparr>m_size = 2, m_capacity = 2, m_items = [1, 2::int]\<rparr>
       = Inl UndefinedBehaviour
   \<and> PushBack (Value 1) \<lparr>m_size = 2, m_capacity = 2, m_items = [1, 2::int]\<rparr>
       = Inr \<lparr>m_size = 3, m_capacity = 4, m_items = [1, 2, 1, 0]\<rparr>"
  by (simp add: SimpleVector_init_def ArrayPtr_def std_copy_def std_move_def At_def subscript_def
      PushBack_def Reserve_def Reserve_reallocates_def subscript_assign_def begin_it_def
      end_it_def default_int_def numeral_2_eq_2)

text \<open>
  Claim C6. \<^verbatim>\<open>Insert\<close> reads its argument after the shift. On \<open>{1, 2}\<close> with capacity 3,
  \<^verbatim>\<open>Insert(begin(), v[1])\<close> passes a reference to the element at index 1, whose value is
  2; the shift stores the 1 of index 0 there, and the assignment then places that 1 at the
  position: the vector becomes \<open>{1, 1, 2}\<close>, where the claim has the value 2 placed at the
  position, \<open>{2, 1, 2}\<close>, as it is for the same value passed from outside the vector.
\<close>

theorem Insert_own_element_shifted:
  "and_then (SimpleVector_init [1, 2::int]) (Reserve 3)
     = Inr \<lparr>m_size = 2, m_capacity = 3, m_items = [1, 2, 0]\<rparr>
   \<and> At \<lparr>m_size = 2, m_capacity = 3, m_items = [1, 2, 0::int]\<rparr> 1 = Inr 2
   \<and> Insert 0 (Element 1) \<lparr>m_size = 2, m_capacity = 3, m_items = [1, 2, 0::int]\<rparr>
       = Inr (0, \<lparr>m_size = 3, m_capacity = 3, m_items = [1, 1, 2]\<rparr>)
   \<and> Insert 0 (Value 2) \<lparr>m_size = 2, m_capacity = 3, m_items = [1, 2, 0::int]\<rparr>
       = Inr (0, \<lparr>m_size = 3, m_capacity = 3, m_items = [2, 1, 2]\<rparr>)"
  by (simp add: SimpleVector_init_def ArrayPtr_def std_copy_def std_move_def At_def subscript_def
      Insert_def VectorMoveRigth_def VectorMoveRigth_reallocates_def Reserve_def
      std_move_backward_def subscript_assign_def begin_it_def end_it_def default_int_def
      numeral_3_eq_3)

end
